theory Spec2Isabelle
  imports Complex_Main
begin

text \<open>
  The ingestor of the Tsinghua-Daimler cyclist dataset (\<open>vod_converter/tsinghua_daimler.py\<close>):
  it checks the layout of the dataset directory, reads the index file of each split, and for
  every listed image reads the size of the image and the boxes of its label file, clamps the
  boxes to the image and keeps those that are not degenerate.

  The file system, the JSON parser and the image library are an environment of functions that
  return a value or an exception; the ingestor is a function of the environment and the root
  path. Each numbered statement C1 to C10 below is proved about these functions.
\<close>

section \<open>Python values and errors\<close>

text \<open>
  Exceptions of the Python program are values: every function of the model that can raise
  returns \<open>py_error + 'a\<close>, with \<open>Inl\<close> the exception.
\<close>

datatype py_error =
    FileNotFoundError string
  | PermissionError string
  | UnidentifiedImageError string
  | JSONDecodeError
  | KeyError string
  | TypeError
  | ValueError
  | OverflowError

text \<open>
  A Python number is modelled by its numeric value. The int \<open>0\<close> and the float \<open>0.0\<close>
  are the same value, as they are for Python's comparisons; a float is a rational, an
  infinity or NaN.
\<close>

datatype pynum = NaN | NInf | Fin rat | PInf

fun py_lt :: "pynum \<Rightarrow> pynum \<Rightarrow> bool" where
  "py_lt NaN _ = False"
| "py_lt _ NaN = False"
| "py_lt (Fin a) (Fin b) = (a < b)"
| "py_lt NInf NInf = False"
| "py_lt NInf _ = True"
| "py_lt _ NInf = False"
| "py_lt PInf _ = False"
| "py_lt _ PInf = True"

definition py_ge :: "pynum \<Rightarrow> pynum \<Rightarrow> bool" where
  "py_ge a b = (a \<noteq> NaN \<and> b \<noteq> NaN \<and> \<not> py_lt a b)"

definition py_le :: "pynum \<Rightarrow> pynum \<Rightarrow> bool" where
  "py_le a b = py_ge b a"

definition of_pyint :: "int \<Rightarrow> pynum" where
  "of_pyint n = Fin (of_int n)"

section \<open>JSON values, as \<open>json.load\<close> returns them\<close>

text \<open>
  A JSON object is the list of the items of the Python dict; \<open>json.load\<close> keeps one
  value per key. A JSON number without fraction or exponent is an int, any other a float.
\<close>

datatype json =
    JNull
  | JBool bool
  | JInt int
  | JFloat pynum
  | JStr string
  | JArr "json list"
  | JObj "(string \<times> json) list"

text \<open>\<open>x[key]\<close> with a string key: only a dict can be subscripted by a string.\<close>

fun subscript :: "json \<Rightarrow> string \<Rightarrow> py_error + json" where
  "subscript (JObj kvs) k = (case map_of kvs k of None \<Rightarrow> Inl (KeyError k) | Some v \<Rightarrow> Inr v)"
| "subscript _ k = Inl TypeError"

text \<open>
  \<open>for box in x\<close>: a list gives its elements, a dict its keys, a string its characters;
  nothing else is iterable.
\<close>

fun iterate :: "json \<Rightarrow> py_error + json list" where
  "iterate (JArr xs) = Inr xs"
| "iterate (JObj kvs) = Inr (map (\<lambda>kv. JStr (fst kv)) kvs)"
| "iterate (JStr s) = Inr (map (\<lambda>c. JStr [c]) s)"
| "iterate _ = Inl TypeError"

subsection \<open>The builtin \<open>float\<close>\<close>

fun bit_length :: "nat \<Rightarrow> nat" where
  "bit_length n = (if n = 0 then 0 else Suc (bit_length (n div 2)))"

declare bit_length.simps [simp del]

text \<open>
  \<open>float(n)\<close> of an int: exact below \<open>2 ^ 53\<close>, otherwise rounded to 53 significant bits,
  ties to even; OverflowError when the rounded value does not fit a double.
\<close>

definition float_of_int :: "int \<Rightarrow> py_error + pynum" where
  "float_of_int n =
     (let a = nat \<bar>n\<bar>; k = bit_length a in
      if k \<le> 53 then Inr (Fin (of_int n))
      else
        let sh = k - 53;
            q = a div 2 ^ sh;
            r = a mod 2 ^ sh;
            half = 2 ^ (sh - 1);
            q' = (if r > half \<or> (r = half \<and> odd q) then q + 1 else q);
            v = q' * 2 ^ sh
        in if v \<ge> 2 ^ 1024 then Inl OverflowError
           else Inr (Fin (of_int (sgn n * int v))))"

text \<open>
  \<open>float(x)\<close> of a JSON value. The grammar of \<open>float\<close> on a string is not modelled:
  \<open>float_of_str\<close> is a parameter.
\<close>

fun py_float :: "(string \<Rightarrow> py_error + pynum) \<Rightarrow> json \<Rightarrow> py_error + pynum" where
  "py_float float_of_str (JInt n) = float_of_int n"
| "py_float float_of_str (JFloat x) = Inr x"
| "py_float float_of_str (JBool b) = Inr (Fin (if b then 1 else 0))"
| "py_float float_of_str (JStr s) = float_of_str s"
| "py_float float_of_str _ = Inl TypeError"

section \<open>Strings\<close>

text \<open>
  A \<open>char\<close> stands for one code point of a Python \<open>str\<close>; the model covers texts whose
  code points are below 256. \<open>isspace\<close> lists the whitespace of \<open>str.strip()\<close> there.
\<close>

definition isspace :: "char \<Rightarrow> bool" where
  "isspace c = (c \<in> set [CHR 0x09, CHR 0x0A, CHR 0x0B, CHR 0x0C, CHR 0x0D, CHR 0x1C,
     CHR 0x1D, CHR 0x1E, CHR 0x1F, CHR 0x20, CHR 0x85, CHR 0xA0])"

definition strip :: "string \<Rightarrow> string" where
  "strip s = rev (dropWhile isspace (rev (dropWhile isspace s)))"

text \<open>\<open>s.split(c)\<close>: the pieces between the occurrences of \<open>c\<close>; never an empty list.\<close>

fun split_on :: "char \<Rightarrow> string \<Rightarrow> string list" where
  "split_on c [] = [[]]"
| "split_on c (x # xs) =
     (if x = c then [] # split_on c xs
      else (case split_on c xs of [] \<Rightarrow> [[x]] | l # ls \<Rightarrow> (x # l) # ls))"

section \<open>The environment\<close>

text \<open>
  What the ingestor reads from outside: \<open>os.path.isdir\<close>, \<open>open(path).read()\<close>,
  \<open>json.load(open(path))\<close> and the size of an image opened with PIL.
\<close>

record env =
  isdir :: "string \<Rightarrow> bool"
  read_text :: "string \<Rightarrow> py_error + string"
  load_json :: "string \<Rightarrow> py_error + json"
  image_dimensions :: "string \<Rightarrow> py_error + int \<times> int"
  float_of_str :: "string \<Rightarrow> py_error + pynum"

section \<open>Records of the output\<close>

text \<open>
  The dicts the ingestor builds, one record each; a field \<open>det_x\<close>, \<open>img_x\<close> or \<open>ann_x\<close>
  is the key \<open>'x'\<close> of the dict.
\<close>

record detection =
  det_label :: json
  det_left :: pynum
  det_right :: pynum
  det_top :: pynum
  det_bottom :: pynum

record image_info =
  img_id :: string
  img_path :: string
  img_segmented_path :: "string option"
  img_width :: int
  img_height :: int

record annotated_image =
  ann_image :: image_info
  ann_detections :: "detection list"

section \<open>TsinghuaDaimlerIngestor\<close>

definition bindE :: "'e + 'a \<Rightarrow> ('a \<Rightarrow> 'e + 'b) \<Rightarrow> 'e + 'b" where
  "bindE m f = (case m of Inl e \<Rightarrow> Inl e | Inr x \<Rightarrow> f x)"

text \<open>A loop \<open>for x in xs: results.append(f(x))\<close>, left by the first exception.\<close>

fun for_append :: "('a \<Rightarrow> 'e + 'b) \<Rightarrow> 'a list \<Rightarrow> 'b list \<Rightarrow> 'e + 'b list" where
  "for_append f [] results = Inr results"
| "for_append f (x # xs) results =
     (case f x of Inl e \<Rightarrow> Inl e | Inr r \<Rightarrow> for_append f xs (results @ [r]))"

definition sub_dirs :: "string list" where
  "sub_dirs = [''train'', ''valid'', ''test'']"

definition expected_dirs :: "string list" where
  "expected_dirs =
     [''labelData/train/tsinghuaDaimlerDataset'',
      ''leftImg8bit/train/tsinghuaDaimlerDataset'',
      ''labelData/valid/tsinghuaDaimlerDataset'',
      ''leftImg8bit/valid/tsinghuaDaimlerDataset'',
      ''labelData/test/tsinghuaDaimlerDataset'',
      ''leftImg8bit/test/tsinghuaDaimlerDataset'']"

fun validate_loop :: "env \<Rightarrow> string \<Rightarrow> string list \<Rightarrow> bool \<times> string option" where
  "validate_loop e path [] = (True, None)"
| "validate_loop e path (subdir # rest) =
     (if \<not> isdir e (path @ ''/'' @ subdir)
      then (False, Some (''Expected subdirectory '' @ subdir @ '' within '' @ path))
      else validate_loop e path rest)"

definition validate :: "env \<Rightarrow> string \<Rightarrow> bool \<times> string option" where
  "validate e path = validate_loop e path expected_dirs"

definition get_image_path :: "string \<Rightarrow> string \<Rightarrow> string \<Rightarrow> string \<Rightarrow> string" where
  "get_image_path rootdir sub_dir image_id image_ext =
     rootdir @ ''/leftImg8bit/'' @ sub_dir @ ''/tsinghuaDaimlerDataset/'' @ image_id
       @ ''_leftImg8bit.'' @ image_ext"

definition get_label_path :: "string \<Rightarrow> string \<Rightarrow> string \<Rightarrow> string" where
  "get_label_path rootdir sub_dir image_id =
     rootdir @ ''/labelData/'' @ sub_dir @ ''/tsinghuaDaimlerDataset/'' @ image_id
       @ ''_labelData.json''"

text \<open>\<open>s[:-len('_leftImg8bit')]\<close>: all of \<open>s\<close> but its last twelve characters.\<close>

definition drop_suffix :: "string \<Rightarrow> string" where
  "drop_suffix s = take (length s - length ''_leftImg8bit'') s"

fun get_image_ids_loop ::
  "env \<Rightarrow> string \<Rightarrow> string list \<Rightarrow> (string \<times> string list) list
     \<Rightarrow> py_error + (string \<times> string list) list" where
  "get_image_ids_loop e rootdir [] ret = Inr ret"
| "get_image_ids_loop e rootdir (sub_dir # rest) ret =
     (case read_text e (rootdir @ ''/'' @ sub_dir @ ''.txt'') of
        Inl err \<Rightarrow> Inl err
      | Inr text \<Rightarrow>
          let image_ids = split_on CHR 0x0A (strip text);
              image_ids = map drop_suffix image_ids
          in get_image_ids_loop e rootdir rest (ret @ [(sub_dir, image_ids)]))"

definition get_image_ids :: "env \<Rightarrow> string \<Rightarrow> py_error + (string \<times> string list) list" where
  "get_image_ids e rootdir = get_image_ids_loop e rootdir sub_dirs []"

text \<open>\<open>float(box[key])\<close>.\<close>

definition box_float :: "env \<Rightarrow> json \<Rightarrow> string \<Rightarrow> py_error + pynum" where
  "box_float e box key = bindE (subscript box key) (py_float (float_of_str e))"

text \<open>The body of the loop over the boxes of a label file.\<close>

definition box_detection :: "env \<Rightarrow> int \<Rightarrow> int \<Rightarrow> json \<Rightarrow> py_error + detection" where
  "box_detection e image_width image_height box =
     bindE (subscript box ''identity'') (\<lambda>label.
     bindE (box_float e box ''mincol'') (\<lambda>min_col.
     bindE (box_float e box ''maxcol'') (\<lambda>max_col.
     bindE (box_float e box ''minrow'') (\<lambda>min_row.
     bindE (box_float e box ''maxrow'') (\<lambda>max_row.
       let min_col = (if py_lt min_col (of_pyint 0) then of_pyint 0 else min_col);
           max_col = (if py_ge max_col (of_pyint image_width)
                      then of_pyint (image_width - 1) else max_col);
           min_row = (if py_lt min_row (of_pyint 0) then of_pyint 0 else min_row);
           max_row = (if py_ge max_row (of_pyint image_height)
                      then of_pyint (image_height - 1) else max_row)
       in Inr \<lparr>det_label = label, det_left = min_col, det_right = max_col,
                det_top = min_row, det_bottom = max_row\<rparr>)))))"

definition get_detections :: "env \<Rightarrow> string \<Rightarrow> int \<Rightarrow> int \<Rightarrow> py_error + detection list" where
  "get_detections e detections_fpath image_width image_height =
     bindE (load_json e detections_fpath) (\<lambda>f_json.
     bindE (subscript f_json ''children'') (\<lambda>children.
     bindE (iterate children) (\<lambda>boxes.
       for_append (box_detection e image_width image_height) boxes [])))"

definition box_ok :: "detection \<Rightarrow> bool" where
  "box_ok det = (py_lt (det_left det) (det_right det) \<and> py_lt (det_top det) (det_bottom det))"

definition get_image_detection ::
  "env \<Rightarrow> string \<Rightarrow> string \<Rightarrow> string \<Rightarrow> string \<Rightarrow> py_error + annotated_image" where
  "get_image_detection e rootdir sub_dir image_id image_ext =
     (let image_path = get_image_path rootdir sub_dir image_id image_ext in
      bindE (image_dimensions e image_path) (\<lambda>(image_width, image_height).
        let detections_fpath = get_label_path rootdir sub_dir image_id in
        bindE (get_detections e detections_fpath image_width image_height) (\<lambda>detections.
          let detections = filter box_ok detections in
          Inr \<lparr>ann_image = \<lparr>img_id = image_id, img_path = image_path,
                              img_segmented_path = None, img_width = image_width,
                              img_height = image_height\<rparr>,
               ann_detections = detections\<rparr>)))"

fun ingest_loop ::
  "env \<Rightarrow> string \<Rightarrow> string \<Rightarrow> (string \<times> string list) list \<Rightarrow> annotated_image list
     \<Rightarrow> py_error + annotated_image list" where
  "ingest_loop e path image_ext [] results = Inr results"
| "ingest_loop e path image_ext ((sub_dir, image_ids) # rest) results =
     (case for_append (\<lambda>image_id. get_image_detection e path sub_dir image_id image_ext)
             image_ids results of
        Inl err \<Rightarrow> Inl err
      | Inr results' \<Rightarrow> ingest_loop e path image_ext rest results')"

definition ingest :: "env \<Rightarrow> string \<Rightarrow> py_error + annotated_image list" where
  "ingest e path =
     bindE (get_image_ids e path) (\<lambda>sub_dir_with_image_ids.
       let image_ext = ''png'' in
       ingest_loop e path image_ext sub_dir_with_image_ids [])"

text \<open>The (split, identifier) pairs of an index, in the order the two loops of \<open>ingest\<close> visit them.\<close>

definition pairs_of :: "(string \<times> string list) list \<Rightarrow> (string \<times> string) list" where
  "pairs_of idx = concat (map (\<lambda>(sub_dir, image_ids). map (Pair sub_dir) image_ids) idx)"

section \<open>The clamp as the specification words it\<close>

text \<open>
  If \<open>left < 0\<close> set \<open>left = 0\<close>; if \<open>right >= imageWidth\<close> set \<open>right = imageWidth - 1\<close>;
  if \<open>top < 0\<close> set \<open>top = 0\<close>; if \<open>bottom >= imageHeight\<close> set \<open>bottom = imageHeight - 1\<close>.
\<close>

definition spec_clamp :: "int \<Rightarrow> int \<Rightarrow> json \<Rightarrow> pynum \<Rightarrow> pynum \<Rightarrow> pynum \<Rightarrow> pynum \<Rightarrow> detection" where
  "spec_clamp imageWidth imageHeight identity mincol maxcol minrow maxrow =
     \<lparr>det_label = identity,
      det_left = (if py_lt mincol (Fin 0) then Fin 0 else mincol),
      det_right = (if py_ge maxcol (Fin (of_int imageWidth)) then Fin (of_int imageWidth - 1) else maxcol),
      det_top = (if py_lt minrow (Fin 0) then Fin 0 else minrow),
      det_bottom = (if py_ge maxrow (Fin (of_int imageHeight)) then Fin (of_int imageHeight - 1) else maxrow)\<rparr>"

section \<open>A small dataset\<close>

text \<open>
  An environment given by the directories, the text files, the label files and the images
  that exist; everything else is missing.
\<close>

definition fs_env ::
  "string list \<Rightarrow> (string \<times> string) list \<Rightarrow> (string \<times> json) list
     \<Rightarrow> (string \<times> int \<times> int) list \<Rightarrow> env" where
  "fs_env dirs texts labels images =
     \<lparr>isdir = (\<lambda>p. p \<in> set dirs),
      read_text = (\<lambda>p. case map_of texts p of None \<Rightarrow> Inl (FileNotFoundError p) | Some t \<Rightarrow> Inr t),
      load_json = (\<lambda>p. case map_of labels p of None \<Rightarrow> Inl (FileNotFoundError p) | Some j \<Rightarrow> Inr j),
      image_dimensions =
        (\<lambda>p. case map_of images p of None \<Rightarrow> Inl (FileNotFoundError p) | Some wh \<Rightarrow> Inr wh),
      float_of_str = (\<lambda>s. Inl ValueError)\<rparr>"

definition box_json :: "string \<Rightarrow> json \<Rightarrow> json \<Rightarrow> json \<Rightarrow> json \<Rightarrow> json" where
  "box_json identity mincol minrow maxcol maxrow =
     JObj [(''identity'', JStr identity), (''mincol'', mincol), (''minrow'', minrow),
           (''maxcol'', maxcol), (''maxrow'', maxrow)]"

definition demo_dirs :: "string list" where
  "demo_dirs = map (\<lambda>d. ''/d/'' @ d) expected_dirs"

definition demo_texts :: "(string \<times> string) list" where
  "demo_texts =
     [(''/d/train.txt'', ''a_leftImg8bit'' @ [CHR 0x0A] @ ''b_leftImg8bit'' @ [CHR 0x0A]),
      (''/d/valid.txt'', ''c_leftImg8bit''),
      (''/d/test.txt'', ''e_leftImg8bit'' @ [CHR 0x0A])]"

definition demo_labels :: "(string \<times> json) list" where
  "demo_labels =
     [(''/d/labelData/train/tsinghuaDaimlerDataset/a_labelData.json'',
         JObj [(''children'',
           JArr [box_json ''pedestrian'' (JInt (- 5)) (JInt 10) (JInt 50) (JInt 60)])]),
      (''/d/labelData/train/tsinghuaDaimlerDataset/b_labelData.json'',
         JObj [(''children'',
           JArr [box_json ''cyclist'' (JInt 39) (JInt 10) (JInt 40) (JInt 60)])]),
      (''/d/labelData/valid/tsinghuaDaimlerDataset/c_labelData.json'',
         JObj [(''children'',
           JArr [box_json ''cyclist'' (JInt 10) (JInt 10) (JFloat (Fin (79 / 2))) (JInt 60)])]),
      (''/d/labelData/test/tsinghuaDaimlerDataset/e_labelData.json'',
         JObj [(''children'',
           JArr [box_json ''pedestrian'' (JInt 1) (JInt 2) (JInt 3) (JInt 4)])])]"

definition demo_images :: "(string \<times> int \<times> int) list" where
  "demo_images =
     [(''/d/leftImg8bit/train/tsinghuaDaimlerDataset/a_leftImg8bit.png'', (40, 100)),
      (''/d/leftImg8bit/train/tsinghuaDaimlerDataset/b_leftImg8bit.png'', (40, 100)),
      (''/d/leftImg8bit/valid/tsinghuaDaimlerDataset/c_leftImg8bit.png'', (40, 100)),
      (''/d/leftImg8bit/test/tsinghuaDaimlerDataset/e_leftImg8bit.png'', (64, 48))]"

definition demo_env :: env where
  "demo_env = fs_env demo_dirs demo_texts demo_labels demo_images"

text \<open>The same dataset without one of the six directories, without one label file, and
  with a blank index file for the split \<open>test\<close>.\<close>

definition demo_env_missing_dir :: env where
  "demo_env_missing_dir =
     fs_env (filter (\<lambda>p. p \<noteq> ''/d/labelData/valid/tsinghuaDaimlerDataset'') demo_dirs)
       demo_texts demo_labels demo_images"

definition demo_env_missing_label :: env where
  "demo_env_missing_label =
     fs_env demo_dirs demo_texts
       (filter (\<lambda>pj. fst pj \<noteq> ''/d/labelData/train/tsinghuaDaimlerDataset/b_labelData.json'')
          demo_labels)
       demo_images"


section \<open>Sequencing and loops\<close>

lemma bindE_Inl [simp]: "bindE (Inl e) f = Inl e"
  by (simp add: bindE_def)

lemma bindE_Inr [simp]: "bindE (Inr x) f = f x"
  by (simp add: bindE_def)

lemma bindE_eq_Inr: "bindE m f = Inr y \<longleftrightarrow> (\<exists>x. m = Inr x \<and> f x = Inr y)"
  by (cases m) simp_all

lemma for_append_app:
  "for_append f (xs @ ys) acc = bindE (for_append f xs acc) (for_append f ys)"
  by (induction xs arbitrary: acc) (simp_all split: sum.splits)

lemma for_append_Inr:
  "for_append f xs acc = Inr rs \<longleftrightarrow> (\<exists>ys. rs = acc @ ys \<and> list_all2 (\<lambda>x y. f x = Inr y) xs ys)"
proof (induction xs arbitrary: acc)
  case Nil
  show ?case by auto
next
  case (Cons x xs)
  show ?case
  proof (cases "f x")
    case (Inl e)
    then show ?thesis by (simp add: list_all2_Cons1)
  next
    case (Inr r)
    then show ?thesis by (auto simp: Cons.IH list_all2_Cons1)
  qed
qed

lemma for_append_first_error:
  assumes "\<forall>y\<in>set ys. \<exists>r. f y = Inr r" and "f x = Inl err"
  shows "for_append f (ys @ x # zs) acc = Inl err"
  using assms by (induction ys arbitrary: acc) auto

lemma for_append_map: "for_append f (map g xs) acc = for_append (\<lambda>x. f (g x)) xs acc"
  by (induction xs arbitrary: acc) (simp_all split: sum.splits)

lemma ingest_loop_for_append:
  "ingest_loop e path ext idx acc =
     for_append (\<lambda>(sub_dir, image_id). get_image_detection e path sub_dir image_id ext)
       (pairs_of idx) acc"
proof (induction idx arbitrary: acc)
  case Nil
  show ?case by (simp add: pairs_of_def)
next
  case (Cons p idx)
  obtain s ids where p: "p = (s, ids)" by (cases p)
  show ?case
    using Cons.IH
    by (simp add: p pairs_of_def for_append_app for_append_map bindE_def split: sum.splits)
qed

section \<open>Directory validation\<close>

lemma validate_loop_True:
  "validate_loop e path ds = (True, None) \<longleftrightarrow> (\<forall>d\<in>set ds. isdir e (path @ ''/'' @ d))"
  by (induction ds) auto

lemma validate_loop_first_missing:
  assumes "\<forall>y\<in>set ys. isdir e (path @ ''/'' @ y)" and "\<not> isdir e (path @ ''/'' @ d)"
  shows "validate_loop e path (ys @ d # zs) =
           (False, Some (''Expected subdirectory '' @ d @ '' within '' @ path))"
  using assms by (induction ys) auto

text \<open>
  C4. \<open>validate\<close> returns \<open>(True, None)\<close> exactly when the six required directories (the
  \<open>labelData\<close> and \<open>leftImg8bit\<close> trees of the splits train, valid, test) all exist under the
  root. When one is missing it returns \<open>False\<close> with the message that names the first missing
  directory in the order of the check, whatever the state of the later ones.
\<close>

theorem validate_reports_first_missing:
  "((validate e path = (True, None)) = (\<forall>d\<in>set expected_dirs. isdir e (path @ ''/'' @ d)))
   \<and> (\<forall>ys d zs. expected_dirs = ys @ d # zs \<and> (\<forall>y\<in>set ys. isdir e (path @ ''/'' @ y))
           \<and> \<not> isdir e (path @ ''/'' @ d)
         \<longrightarrow> validate e path = (False, Some (''Expected subdirectory '' @ d @ '' within '' @ path)))
   \<and> ((\<exists>d\<in>set expected_dirs. \<not> isdir e (path @ ''/'' @ d))
         \<longrightarrow> (\<exists>ys d zs. expected_dirs = ys @ d # zs \<and> (\<forall>y\<in>set ys. isdir e (path @ ''/'' @ y))
                \<and> \<not> isdir e (path @ ''/'' @ d)
                \<and> validate e path = (False, Some (''Expected subdirectory '' @ d @ '' within '' @ path))))
   \<and> expected_dirs =
       concat (map (\<lambda>s. [''labelData/'' @ s @ ''/tsinghuaDaimlerDataset'',
                          ''leftImg8bit/'' @ s @ ''/tsinghuaDaimlerDataset'']) sub_dirs)"
proof (intro conjI allI impI)
  show "(validate e path = (True, None)) = (\<forall>d\<in>set expected_dirs. isdir e (path @ ''/'' @ d))"
    unfolding validate_def by (rule validate_loop_True)
next
  fix ys d zs
  assume "expected_dirs = ys @ d # zs \<and> (\<forall>y\<in>set ys. isdir e (path @ ''/'' @ y))
            \<and> \<not> isdir e (path @ ''/'' @ d)"
  then have "expected_dirs = ys @ d # zs" and "\<forall>y\<in>set ys. isdir e (path @ ''/'' @ y)"
    and "\<not> isdir e (path @ ''/'' @ d)"
    by blast+
  then show "validate e path = (False, Some (''Expected subdirectory '' @ d @ '' within '' @ path))"
    unfolding validate_def using validate_loop_first_missing[of ys e path d zs] by simp
next
  assume "\<exists>d\<in>set expected_dirs. \<not> isdir e (path @ ''/'' @ d)"
  then obtain ys d zs where *: "expected_dirs = ys @ d # zs" "\<not> isdir e (path @ ''/'' @ d)"
      "\<forall>y\<in>set ys. \<not> \<not> isdir e (path @ ''/'' @ y)"
    using split_list_first_prop[of expected_dirs "\<lambda>d. \<not> isdir e (path @ ''/'' @ d)"] by blast
  then have "validate e path = (False, Some (''Expected subdirectory '' @ d @ '' within '' @ path))"
    unfolding validate_def using validate_loop_first_missing[of ys e path d zs] by simp
  with * show "\<exists>ys d zs. expected_dirs = ys @ d # zs \<and> (\<forall>y\<in>set ys. isdir e (path @ ''/'' @ y))
                \<and> \<not> isdir e (path @ ''/'' @ d)
                \<and> validate e path = (False, Some (''Expected subdirectory '' @ d @ '' within '' @ path))"
    by blast
next
  show "expected_dirs =
       concat (map (\<lambda>s. [''labelData/'' @ s @ ''/tsinghuaDaimlerDataset'',
                          ''leftImg8bit/'' @ s @ ''/tsinghuaDaimlerDataset'']) sub_dirs)"
    by (simp add: expected_dirs_def sub_dirs_def)
qed

theorem validate_reports_first_missing_witness:
  "validate demo_env ''/d'' = (True, None)
   \<and> validate demo_env_missing_dir ''/d''
       = (False, Some ''Expected subdirectory labelData/valid/tsinghuaDaimlerDataset within /d'')"
proof
  have "\<forall>d\<in>set expected_dirs. isdir demo_env (''/d'' @ ''/'' @ d)"
    by (simp add: demo_env_def fs_env_def demo_dirs_def expected_dirs_def)
  then show "validate demo_env ''/d'' = (True, None)"
    using validate_reports_first_missing[of demo_env "''/d''"] by blast
next
  let ?ys = "[''labelData/train/tsinghuaDaimlerDataset'', ''leftImg8bit/train/tsinghuaDaimlerDataset'']"
  let ?d = "''labelData/valid/tsinghuaDaimlerDataset''"
  let ?zs = "[''leftImg8bit/valid/tsinghuaDaimlerDataset'', ''labelData/test/tsinghuaDaimlerDataset'',
      ''leftImg8bit/test/tsinghuaDaimlerDataset'']"
  have h: "expected_dirs = ?ys @ ?d # ?zs
      \<and> (\<forall>y\<in>set ?ys. isdir demo_env_missing_dir (''/d'' @ ''/'' @ y))
      \<and> \<not> isdir demo_env_missing_dir (''/d'' @ ''/'' @ ?d)"
    by (simp add: demo_env_missing_dir_def fs_env_def demo_dirs_def expected_dirs_def)
  have "validate demo_env_missing_dir ''/d''
        = (False, Some (''Expected subdirectory '' @ ?d @ '' within '' @ ''/d''))"
    using validate_reports_first_missing[of demo_env_missing_dir "''/d''"] h by blast
  then show "validate demo_env_missing_dir ''/d''
       = (False, Some ''Expected subdirectory labelData/valid/tsinghuaDaimlerDataset within /d'')"
    by simp
qed

section \<open>Loading the index files\<close>

lemma split_on_not_Nil: "split_on c s \<noteq> []"
  by (induction s) (auto split: list.splits)


lemma strip_decompose:
  "\<exists>a b. t = a @ strip t @ b \<and> (\<forall>c\<in>set a. isspace c) \<and> (\<forall>c\<in>set b. isspace c)
     \<and> (strip t = [] \<or> (\<not> isspace (hd (strip t)) \<and> \<not> isspace (last (strip t))))"
proof -
  define u where "u = dropWhile isspace t"
  define a where "a = takeWhile isspace t"
  define b where "b = rev (takeWhile isspace (rev u))"
  have s: "strip t = rev (dropWhile isspace (rev u))"
    by (simp add: strip_def u_def)
  have "rev (strip t @ b) = takeWhile isspace (rev u) @ dropWhile isspace (rev u)"
    by (simp add: s b_def)
  then have "rev (strip t @ b) = rev u"
    by simp
  then have u: "u = strip t @ b"
    by (simp only: rev_is_rev_conv)
  have "t = a @ u"
    by (simp add: a_def u_def)
  with u have t: "t = a @ strip t @ b"
    by simp
  have wa: "\<forall>c\<in>set a. isspace c"
    unfolding a_def by (auto dest: set_takeWhileD)
  have wb: "\<forall>c\<in>set b. isspace c"
    unfolding b_def by (auto dest: set_takeWhileD)
  have ends: "\<not> isspace (hd (strip t)) \<and> \<not> isspace (last (strip t))" if ne: "strip t \<noteq> []"
  proof
    from ne have "u \<noteq> []" using u by auto
    then have "\<not> isspace (hd u)" unfolding u_def by (rule hd_dropWhile)
    moreover have "hd u = hd (strip t)" using u ne by (metis hd_append2)
    ultimately show "\<not> isspace (hd (strip t))" by simp
  next
    from ne have d: "dropWhile isspace (rev u) \<noteq> []" by (simp add: s)
    then have "\<not> isspace (hd (dropWhile isspace (rev u)))" by (rule hd_dropWhile)
    then show "\<not> isspace (last (strip t))" using d by (simp add: s last_rev)
  qed
  from t wa wb ends show ?thesis by blast
qed

lemma drop_suffix_append: "drop_suffix (x @ ''_leftImg8bit'') = x"
  by (simp add: drop_suffix_def)

lemma get_image_ids_unfold:
  "get_image_ids e rootdir =
     bindE (read_text e (rootdir @ ''/train.txt'')) (\<lambda>t1.
     bindE (read_text e (rootdir @ ''/valid.txt'')) (\<lambda>t2.
     bindE (read_text e (rootdir @ ''/test.txt'')) (\<lambda>t3.
       Inr [(''train'', map drop_suffix (split_on CHR 0x0A (strip t1))),
            (''valid'', map drop_suffix (split_on CHR 0x0A (strip t2))),
            (''test'', map drop_suffix (split_on CHR 0x0A (strip t3)))])))"
  by (simp add: get_image_ids_def sub_dirs_def bindE_def split: sum.splits)

lemma get_image_ids_Inr:
  assumes "get_image_ids e rootdir = Inr idx"
  shows "\<exists>t1 t2 t3. read_text e (rootdir @ ''/train.txt'') = Inr t1
     \<and> read_text e (rootdir @ ''/valid.txt'') = Inr t2
     \<and> read_text e (rootdir @ ''/test.txt'') = Inr t3
     \<and> idx = [(''train'', map drop_suffix (split_on CHR 0x0A (strip t1))),
            (''valid'', map drop_suffix (split_on CHR 0x0A (strip t2))),
            (''test'', map drop_suffix (split_on CHR 0x0A (strip t3)))]"
  using assms unfolding get_image_ids_unfold by (auto simp: bindE_eq_Inr)

text \<open>
  C5. \<open>get_image_ids\<close> reads \<open>{root}/{split}.txt\<close> for train, valid, test in this order, strips
  the whitespace at both ends of the text, splits it at the newlines and removes the last
  twelve characters (the length of \<open>_leftImg8bit\<close>) of every line, whatever they are: a line
  that ends in the suffix gives the bare identifier, any other line loses its own last twelve
  characters.
\<close>

theorem get_image_ids_strips_suffix:
  "get_image_ids e rootdir =
     bindE (read_text e (rootdir @ ''/train.txt'')) (\<lambda>t1.
     bindE (read_text e (rootdir @ ''/valid.txt'')) (\<lambda>t2.
     bindE (read_text e (rootdir @ ''/test.txt'')) (\<lambda>t3.
       Inr [(''train'', map drop_suffix (split_on CHR 0x0A (strip t1))),
            (''valid'', map drop_suffix (split_on CHR 0x0A (strip t2))),
            (''test'', map drop_suffix (split_on CHR 0x0A (strip t3)))])))
   \<and> (\<forall>t. \<exists>a b. t = a @ strip t @ b \<and> (\<forall>c\<in>set a. isspace c) \<and> (\<forall>c\<in>set b. isspace c)
          \<and> (strip t = [] \<or> (\<not> isspace (hd (strip t)) \<and> \<not> isspace (last (strip t)))))
   \<and> (\<forall>x. drop_suffix (x @ ''_leftImg8bit'') = x)
   \<and> (\<forall>l. drop_suffix l = take (length l - 12) l)
   \<and> map drop_suffix (split_on CHR 0x0A
         (strip (''foo_leftImg8bit'' @ [CHR 0x0A] @ ''bar_leftImg8bit'' @ [CHR 0x0A])))
       = [''foo'', ''bar'']
   \<and> drop_suffix ''foo_leftImg8bit.png'' = ''foo_lef''"
proof (intro conjI allI)
  show "get_image_ids e rootdir =
     bindE (read_text e (rootdir @ ''/train.txt'')) (\<lambda>t1.
     bindE (read_text e (rootdir @ ''/valid.txt'')) (\<lambda>t2.
     bindE (read_text e (rootdir @ ''/test.txt'')) (\<lambda>t3.
       Inr [(''train'', map drop_suffix (split_on CHR 0x0A (strip t1))),
            (''valid'', map drop_suffix (split_on CHR 0x0A (strip t2))),
            (''test'', map drop_suffix (split_on CHR 0x0A (strip t3)))])))"
    by (rule get_image_ids_unfold)
next
  fix t
  show "\<exists>a b. t = a @ strip t @ b \<and> (\<forall>c\<in>set a. isspace c) \<and> (\<forall>c\<in>set b. isspace c)
          \<and> (strip t = [] \<or> (\<not> isspace (hd (strip t)) \<and> \<not> isspace (last (strip t))))"
    by (rule strip_decompose)
next
  fix x
  show "drop_suffix (x @ ''_leftImg8bit'') = x"
    by (rule drop_suffix_append)
next
  fix l
  show "drop_suffix l = take (length l - 12) l"
    by (simp add: drop_suffix_def eval_nat_numeral)
next
  show "map drop_suffix (split_on CHR 0x0A
         (strip (''foo_leftImg8bit'' @ [CHR 0x0A] @ ''bar_leftImg8bit'' @ [CHR 0x0A])))
       = [''foo'', ''bar'']"
    by (simp add: strip_def isspace_def drop_suffix_def)
next
  show "drop_suffix ''foo_leftImg8bit.png'' = ''foo_lef''"
    by (simp add: drop_suffix_def)
qed

theorem get_image_ids_strips_suffix_witness:
  "get_image_ids demo_env ''/d'' = Inr [(''train'', [''a'', ''b'']), (''valid'', [''c'']), (''test'', [''e''])]"
proof -
  have "get_image_ids demo_env ''/d'' =
     bindE (read_text demo_env (''/d'' @ ''/train.txt'')) (\<lambda>t1.
     bindE (read_text demo_env (''/d'' @ ''/valid.txt'')) (\<lambda>t2.
     bindE (read_text demo_env (''/d'' @ ''/test.txt'')) (\<lambda>t3.
       Inr [(''train'', map drop_suffix (split_on CHR 0x0A (strip t1))),
            (''valid'', map drop_suffix (split_on CHR 0x0A (strip t2))),
            (''test'', map drop_suffix (split_on CHR 0x0A (strip t3)))])))"
    using get_image_ids_strips_suffix[of demo_env "''/d''"] by blast
  then show ?thesis
    by (simp add: demo_env_def fs_env_def demo_texts_def strip_def isspace_def drop_suffix_def)
qed

section \<open>The structure of \<open>ingest\<close>\<close>

lemma for_append_some_error:
  assumes "x \<in> set xs" and "f x = Inl err"
  shows "\<exists>err'. for_append f xs acc = Inl err'"
proof (cases "for_append f xs acc")
  case (Inl err')
  then show ?thesis by blast
next
  case (Inr rs)
  then obtain ys where "list_all2 (\<lambda>x y. f x = Inr y) xs ys"
    unfolding for_append_Inr by blast
  with assms(1) obtain y where "f x = Inr y"
    by (auto simp: list_all2_conv_all_nth in_set_conv_nth)
  with assms(2) show ?thesis by simp
qed

lemma for_append_all_ok:
  assumes "\<forall>x\<in>set xs. \<exists>r. f x = Inr r"
  shows "\<exists>rs. for_append f xs acc = Inr rs"
  using assms by (induction xs arbitrary: acc) auto

lemma get_image_detection_Inr:
  "get_image_detection e rootdir s i ext = Inr a \<longleftrightarrow>
     (\<exists>w h ds. image_dimensions e (get_image_path rootdir s i ext) = Inr (w, h)
        \<and> get_detections e (get_label_path rootdir s i) w h = Inr ds
        \<and> a = \<lparr>ann_image = \<lparr>img_id = i, img_path = get_image_path rootdir s i ext,
                   img_segmented_path = None, img_width = w, img_height = h\<rparr>,
                 ann_detections = filter box_ok ds\<rparr>)"
  by (auto simp: get_image_detection_def Let_def bindE_eq_Inr)

lemma get_image_detection_image_error:
  "image_dimensions e (get_image_path rootdir s i ext) = Inl err
     \<Longrightarrow> get_image_detection e rootdir s i ext = Inl err"
  by (simp add: get_image_detection_def)

lemma get_image_detection_label_error:
  "image_dimensions e (get_image_path rootdir s i ext) = Inr wh
     \<Longrightarrow> load_json e (get_label_path rootdir s i) = Inl err
     \<Longrightarrow> get_image_detection e rootdir s i ext = Inl err"
  by (cases wh) (simp add: get_image_detection_def get_detections_def)

lemma get_image_detection_file_error:
  assumes "image_dimensions e (get_image_path rootdir s i ext) = Inl err
     \<or> load_json e (get_label_path rootdir s i) = Inl err"
  shows "\<exists>err'. get_image_detection e rootdir s i ext = Inl err'"
proof (cases "image_dimensions e (get_image_path rootdir s i ext)")
  case (Inl err')
  then show ?thesis using get_image_detection_image_error by blast
next
  case (Inr wh)
  with assms have "load_json e (get_label_path rootdir s i) = Inl err" by simp
  with Inr show ?thesis using get_image_detection_label_error by blast
qed

lemma ingest_unfold:
  "ingest e rootdir =
     bindE (get_image_ids e rootdir) (\<lambda>idx.
       for_append (\<lambda>p. get_image_detection e rootdir (fst p) (snd p) ''png'') (pairs_of idx) [])"
  by (simp add: ingest_def ingest_loop_for_append case_prod_unfold)

lemma ingest_Inr:
  "ingest e rootdir = Inr rs \<longleftrightarrow>
     (\<exists>idx. get_image_ids e rootdir = Inr idx
        \<and> list_all2 (\<lambda>p r. get_image_detection e rootdir (fst p) (snd p) ''png'' = Inr r)
             (pairs_of idx) rs)"
  by (simp add: ingest_unfold bindE_eq_Inr for_append_Inr)

lemma get_image_ids_read_error:
  assumes "s \<in> set sub_dirs" and "read_text e (rootdir @ ''/'' @ s @ ''.txt'') = Inl err"
  shows "\<exists>err'. get_image_ids e rootdir = Inl err'"
  using assms
  by (auto simp: sub_dirs_def get_image_ids_unfold bindE_def split: sum.splits)

lemma pairs_of_three:
  "pairs_of [(s1, a), (s2, b), (s3, c)] = map (Pair s1) a @ map (Pair s2) b @ map (Pair s3) c"
  by (simp add: pairs_of_def)

lemma fst_in_sub_dirs:
  assumes "get_image_ids e rootdir = Inr idx" and "p \<in> set (pairs_of idx)"
  shows "fst p \<in> set sub_dirs"
proof -
  from assms(1) obtain a b c where "idx = [(''train'', a), (''valid'', b), (''test'', c)]"
    using get_image_ids_Inr by blast
  with assms(2) show ?thesis
    by (auto simp: pairs_of_three sub_dirs_def)
qed

section \<open>The small dataset, evaluated\<close>

lemmas demo_eval =
  get_image_detection_def get_image_path_def get_label_path_def get_detections_def
  box_detection_def box_float_def bindE_def fs_env_def demo_labels_def demo_images_def
  demo_texts_def
  box_json_def float_of_int_def bit_length.simps py_ge_def of_pyint_def box_ok_def Let_def
  strip_def isspace_def drop_suffix_def pairs_of_def

lemma demo_index:
  "get_image_ids demo_env ''/d''
     = Inr [(''train'', [''a'', ''b'']), (''valid'', [''c'']), (''test'', [''e''])]"
  by (simp add: get_image_ids_unfold demo_env_def demo_eval)

lemma demo_a:
  "get_image_detection demo_env ''/d'' ''train'' ''a'' ''png'' =
     Inr \<lparr>ann_image = \<lparr>img_id = ''a'',
            img_path = ''/d/leftImg8bit/train/tsinghuaDaimlerDataset/a_leftImg8bit.png'',
            img_segmented_path = None, img_width = 40, img_height = 100\<rparr>,
          ann_detections = [\<lparr>det_label = JStr ''pedestrian'', det_left = Fin 0,
            det_right = Fin 39, det_top = Fin 10, det_bottom = Fin 60\<rparr>]\<rparr>"
  by (simp add: demo_env_def demo_eval)

lemma demo_b:
  "get_image_detection demo_env ''/d'' ''train'' ''b'' ''png'' =
     Inr \<lparr>ann_image = \<lparr>img_id = ''b'',
            img_path = ''/d/leftImg8bit/train/tsinghuaDaimlerDataset/b_leftImg8bit.png'',
            img_segmented_path = None, img_width = 40, img_height = 100\<rparr>,
          ann_detections = []\<rparr>"
  by (simp add: demo_env_def demo_eval)

lemma demo_c:
  "get_image_detection demo_env ''/d'' ''valid'' ''c'' ''png'' =
     Inr \<lparr>ann_image = \<lparr>img_id = ''c'',
            img_path = ''/d/leftImg8bit/valid/tsinghuaDaimlerDataset/c_leftImg8bit.png'',
            img_segmented_path = None, img_width = 40, img_height = 100\<rparr>,
          ann_detections = [\<lparr>det_label = JStr ''cyclist'', det_left = Fin 10,
            det_right = Fin (79 / 2), det_top = Fin 10, det_bottom = Fin 60\<rparr>]\<rparr>"
  by (simp add: demo_env_def demo_eval)

lemma demo_e:
  "get_image_detection demo_env ''/d'' ''test'' ''e'' ''png'' =
     Inr \<lparr>ann_image = \<lparr>img_id = ''e'',
            img_path = ''/d/leftImg8bit/test/tsinghuaDaimlerDataset/e_leftImg8bit.png'',
            img_segmented_path = None, img_width = 64, img_height = 48\<rparr>,
          ann_detections = [\<lparr>det_label = JStr ''pedestrian'', det_left = Fin 1,
            det_right = Fin 3, det_top = Fin 2, det_bottom = Fin 4\<rparr>]\<rparr>"
  by (simp add: demo_env_def demo_eval)

lemma demo_ingest:
  "ingest demo_env ''/d'' =
     Inr [\<lparr>ann_image = \<lparr>img_id = ''a'',
            img_path = ''/d/leftImg8bit/train/tsinghuaDaimlerDataset/a_leftImg8bit.png'',
            img_segmented_path = None, img_width = 40, img_height = 100\<rparr>,
          ann_detections = [\<lparr>det_label = JStr ''pedestrian'', det_left = Fin 0,
            det_right = Fin 39, det_top = Fin 10, det_bottom = Fin 60\<rparr>]\<rparr>,
         \<lparr>ann_image = \<lparr>img_id = ''b'',
            img_path = ''/d/leftImg8bit/train/tsinghuaDaimlerDataset/b_leftImg8bit.png'',
            img_segmented_path = None, img_width = 40, img_height = 100\<rparr>,
          ann_detections = []\<rparr>,
         \<lparr>ann_image = \<lparr>img_id = ''c'',
            img_path = ''/d/leftImg8bit/valid/tsinghuaDaimlerDataset/c_leftImg8bit.png'',
            img_segmented_path = None, img_width = 40, img_height = 100\<rparr>,
          ann_detections = [\<lparr>det_label = JStr ''cyclist'', det_left = Fin 10,
            det_right = Fin (79 / 2), det_top = Fin 10, det_bottom = Fin 60\<rparr>]\<rparr>,
         \<lparr>ann_image = \<lparr>img_id = ''e'',
            img_path = ''/d/leftImg8bit/test/tsinghuaDaimlerDataset/e_leftImg8bit.png'',
            img_segmented_path = None, img_width = 64, img_height = 48\<rparr>,
          ann_detections = [\<lparr>det_label = JStr ''pedestrian'', det_left = Fin 1,
            det_right = Fin 3, det_top = Fin 2, det_bottom = Fin 4\<rparr>]\<rparr>]"
  by (simp add: ingest_unfold demo_index pairs_of_def demo_a demo_b demo_c demo_e)

section \<open>Records of \<open>ingest\<close>: number, order and paths\<close>

text \<open>
  C3. When the index files list the identifiers \<open>a\<close>, \<open>b\<close>, \<open>c\<close> for train, valid, test, a
  successful \<open>ingest\<close> returns \<open>length a + length b + length c\<close> records, the k-th being the
  record of the k-th (split, identifier) pair in the order train, valid, test and, within a
  split, the order of the lines; \<open>ingest\<close> succeeds when every pair can be processed.
\<close>

theorem ingest_one_record_per_identifier:
  assumes "get_image_ids e rootdir = Inr [(''train'', a), (''valid'', b), (''test'', c)]"
  shows "(\<forall>rs. ingest e rootdir = Inr rs \<longrightarrow>
           length rs = length a + length b + length c
           \<and> map (\<lambda>r. img_id (ann_image r)) rs = a @ b @ c
           \<and> list_all2 (\<lambda>p r. get_image_detection e rootdir (fst p) (snd p) ''png'' = Inr r)
                (map (Pair ''train'') a @ map (Pair ''valid'') b @ map (Pair ''test'') c) rs)
     \<and> ((\<forall>p\<in>set (map (Pair ''train'') a @ map (Pair ''valid'') b @ map (Pair ''test'') c).
            \<exists>r. get_image_detection e rootdir (fst p) (snd p) ''png'' = Inr r)
           \<longrightarrow> (\<exists>rs. ingest e rootdir = Inr rs))"
proof (intro conjI allI impI)
  define ps where "ps = map (Pair ''train'') a @ map (Pair ''valid'') b @ map (Pair ''test'') c"
  have pairs: "pairs_of [(''train'', a), (''valid'', b), (''test'', c)] = ps"
    unfolding ps_def by (rule pairs_of_three)
  have ing: "ingest e rootdir =
      for_append (\<lambda>p. get_image_detection e rootdir (fst p) (snd p) ''png'') ps []"
    by (simp only: ingest_unfold assms bindE_Inr pairs)
  have snd_ps: "map snd ps = a @ b @ c"
    by (simp add: ps_def comp_def)
  {
    fix rs
    assume ok: "ingest e rootdir = Inr rs"
    then have all2: "list_all2 (\<lambda>p r. get_image_detection e rootdir (fst p) (snd p) ''png'' = Inr r)
        ps rs"
      by (simp add: ing for_append_Inr)
    then have len: "length rs = length ps"
      by (simp add: list_all2_lengthD)
    have "map (\<lambda>r. img_id (ann_image r)) rs = map snd ps"
    proof (rule nth_equalityI)
      show "length (map (\<lambda>r. img_id (ann_image r)) rs) = length (map snd ps)"
        by (simp add: len)
    next
      fix k
      assume "k < length (map (\<lambda>r. img_id (ann_image r)) rs)"
      then have k: "k < length rs" by simp
      with all2 have "get_image_detection e rootdir (fst (ps ! k)) (snd (ps ! k)) ''png''
          = Inr (rs ! k)"
        by (simp add: list_all2_conv_all_nth)
      then have "img_id (ann_image (rs ! k)) = snd (ps ! k)"
        unfolding get_image_detection_Inr by (elim exE conjE) simp
      with k len show "map (\<lambda>r. img_id (ann_image r)) rs ! k = map snd ps ! k"
        by simp
    qed
    then show "map (\<lambda>r. img_id (ann_image r)) rs = a @ b @ c"
      by (simp only: snd_ps)
    from len show "length rs = length a + length b + length c"
      by (simp add: ps_def)
    from all2 show "list_all2 (\<lambda>p r. get_image_detection e rootdir (fst p) (snd p) ''png'' = Inr r)
        (map (Pair ''train'') a @ map (Pair ''valid'') b @ map (Pair ''test'') c) rs"
      by (simp only: ps_def)
  }
  assume "\<forall>p\<in>set (map (Pair ''train'') a @ map (Pair ''valid'') b @ map (Pair ''test'') c).
            \<exists>r. get_image_detection e rootdir (fst p) (snd p) ''png'' = Inr r"
  then have "\<forall>p\<in>set ps. \<exists>r. get_image_detection e rootdir (fst p) (snd p) ''png'' = Inr r"
    by (simp only: ps_def)
  then show "\<exists>rs. ingest e rootdir = Inr rs"
    unfolding ing by (rule for_append_all_ok)
qed

theorem ingest_one_record_per_identifier_witness:
  "\<exists>rs. ingest demo_env ''/d'' = Inr rs \<and> length rs = 2 + 1 + 1
         \<and> map (\<lambda>r. img_id (ann_image r)) rs = [''a'', ''b'', ''c'', ''e'']"
proof -
  have h: "get_image_ids demo_env ''/d''
     = Inr [(''train'', [''a'', ''b'']), (''valid'', [''c'']), (''test'', [''e''])]"
    by (rule demo_index)
  note t = ingest_one_record_per_identifier[OF h]
  have "\<forall>p\<in>set (map (Pair ''train'') [''a'', ''b''] @ map (Pair ''valid'') [''c'']
            @ map (Pair ''test'') [''e'']).
          \<exists>r. get_image_detection demo_env ''/d'' (fst p) (snd p) ''png'' = Inr r"
    by (simp add: demo_a demo_b demo_c demo_e)
  with t[THEN conjunct2] have "\<exists>rs. ingest demo_env ''/d'' = Inr rs" 
    by (rule mp)
  then obtain rs where rs: "ingest demo_env ''/d'' = Inr rs" ..
  with t[THEN conjunct1] have "length rs = length [''a'', ''b''] + length [''c''] + length [''e'']
       \<and> map (\<lambda>r. img_id (ann_image r)) rs = [''a'', ''b''] @ [''c''] @ [''e'']"
    by simp
  then have "length rs = 2 + 1 + 1 \<and> map (\<lambda>r. img_id (ann_image r)) rs = [''a'', ''b'', ''c'', ''e'']"
    by simp
  with rs show ?thesis by simp
qed

text \<open>
  C8. The image path of every record of \<open>ingest\<close> is
  \<open>{root}/leftImg8bit/{split}/tsinghuaDaimlerDataset/{id}_leftImg8bit.png\<close>, for the split and
  the identifier of the record: the extension is \<open>png\<close> for every entry, and the path is
  built from the strings alone, by a function that does not read the environment.
\<close>

theorem ingest_image_path_is_png_in_split:
  assumes "get_image_ids e rootdir = Inr idx" and "ingest e rootdir = Inr rs"
  shows "map (\<lambda>r. img_path (ann_image r)) rs
       = map (\<lambda>p. rootdir @ ''/leftImg8bit/'' @ fst p @ ''/tsinghuaDaimlerDataset/'' @ snd p
                    @ ''_leftImg8bit.png'') (pairs_of idx)
     \<and> (\<forall>r\<in>set rs. \<exists>s\<in>set sub_dirs. img_path (ann_image r)
           = rootdir @ ''/leftImg8bit/'' @ s @ ''/tsinghuaDaimlerDataset/'' @ img_id (ann_image r)
               @ ''_leftImg8bit.png'')
     \<and> (\<forall>s i ext. get_image_path rootdir s i ext
           = rootdir @ ''/leftImg8bit/'' @ s @ ''/tsinghuaDaimlerDataset/'' @ i
               @ ''_leftImg8bit.'' @ ext)"
proof (intro conjI ballI allI)
  from assms
  have all2: "list_all2 (\<lambda>p r. get_image_detection e rootdir (fst p) (snd p) ''png'' = Inr r)
      (pairs_of idx) rs"
    by (auto simp: ingest_Inr)
  then have len: "length rs = length (pairs_of idx)"
    by (simp add: list_all2_lengthD)
  have nth: "img_path (ann_image (rs ! k))
        = rootdir @ ''/leftImg8bit/'' @ fst (pairs_of idx ! k) @ ''/tsinghuaDaimlerDataset/''
            @ snd (pairs_of idx ! k) @ ''_leftImg8bit.png''
      \<and> img_id (ann_image (rs ! k)) = snd (pairs_of idx ! k)"
    if k: "k < length rs" for k
  proof -
    from all2 k have "get_image_detection e rootdir (fst (pairs_of idx ! k))
        (snd (pairs_of idx ! k)) ''png'' = Inr (rs ! k)"
      by (simp add: list_all2_conv_all_nth)
    then show ?thesis
      by (auto simp: get_image_detection_Inr get_image_path_def)
  qed
  show "map (\<lambda>r. img_path (ann_image r)) rs
       = map (\<lambda>p. rootdir @ ''/leftImg8bit/'' @ fst p @ ''/tsinghuaDaimlerDataset/'' @ snd p
                    @ ''_leftImg8bit.png'') (pairs_of idx)"
    by (rule nth_equalityI) (simp_all add: len nth)
  fix r
  assume "r \<in> set rs"
  then obtain k where k: "k < length rs" and r: "r = rs ! k"
    by (auto simp: in_set_conv_nth)
  from k len have "pairs_of idx ! k \<in> set (pairs_of idx)" by simp
  with assms(1) have "fst (pairs_of idx ! k) \<in> set sub_dirs"
    by (rule fst_in_sub_dirs)
  with nth[OF k] r show "\<exists>s\<in>set sub_dirs. img_path (ann_image r)
           = rootdir @ ''/leftImg8bit/'' @ s @ ''/tsinghuaDaimlerDataset/'' @ img_id (ann_image r)
               @ ''_leftImg8bit.png''"
    by auto
next
  fix s i ext
  show "get_image_path rootdir s i ext
           = rootdir @ ''/leftImg8bit/'' @ s @ ''/tsinghuaDaimlerDataset/'' @ i
               @ ''_leftImg8bit.'' @ ext"
    by (simp add: get_image_path_def)
qed

theorem ingest_image_path_is_png_in_split_witness:
  "map (\<lambda>r. img_path (ann_image r)) (projr (ingest demo_env ''/d'')) =
     [''/d/leftImg8bit/train/tsinghuaDaimlerDataset/a_leftImg8bit.png'',
      ''/d/leftImg8bit/train/tsinghuaDaimlerDataset/b_leftImg8bit.png'',
      ''/d/leftImg8bit/valid/tsinghuaDaimlerDataset/c_leftImg8bit.png'',
      ''/d/leftImg8bit/test/tsinghuaDaimlerDataset/e_leftImg8bit.png'']"
proof -
  have h: "get_image_ids demo_env ''/d''
     = Inr [(''train'', [''a'', ''b'']), (''valid'', [''c'']), (''test'', [''e''])]"
    by (rule demo_index)
  obtain rs where rs: "ingest demo_env ''/d'' = Inr rs"
    using demo_ingest by simp
  from ingest_image_path_is_png_in_split[OF h rs, THEN conjunct1]
  have "map (\<lambda>r. img_path (ann_image r)) rs
       = map (\<lambda>p. ''/d'' @ ''/leftImg8bit/'' @ fst p @ ''/tsinghuaDaimlerDataset/'' @ snd p
                    @ ''_leftImg8bit.png'')
           (pairs_of [(''train'', [''a'', ''b'']), (''valid'', [''c'']), (''test'', [''e''])])" .
  then show ?thesis
    by (simp add: rs pairs_of_def)
qed

section \<open>Blank index files\<close>




lemma ingest_pair_error:
  assumes "get_image_ids e rootdir = Inr idx" and "p \<in> set (pairs_of idx)"
    and "get_image_detection e rootdir (fst p) (snd p) ''png'' = Inl err"
  shows "\<exists>err'. ingest e rootdir = Inl err'"
  unfolding ingest_unfold assms(1) bindE_Inr
  using assms(2,3) by (rule for_append_some_error)





section \<open>Missing files\<close>

lemma ingest_index_error:
  "get_image_ids e rootdir = Inl err \<Longrightarrow> ingest e rootdir = Inl err"
  by (simp add: ingest_unfold)

lemma ingest_first_error:
  assumes "get_image_ids e rootdir = Inr idx" and "pairs_of idx = ps @ p # qs"
    and "\<forall>q\<in>set ps. \<exists>r. get_image_detection e rootdir (fst q) (snd q) ''png'' = Inr r"
    and "get_image_detection e rootdir (fst p) (snd p) ''png'' = Inl err"
  shows "ingest e rootdir = Inl err"
  unfolding ingest_unfold assms(1) bindE_Inr assms(2)
  using assms(3,4) by (rule for_append_first_error)

text \<open>
  C6. A missing or unreadable file makes the whole call fail, with no list of records: an
  index file of one of the three splits, or the image or the label file of any listed
  identifier. The exception that leaves \<open>ingest\<close> is the one of the first step that fails: when
  every earlier identifier was processed, it is the file-access error of the missing image or
  label file itself.
\<close>

theorem ingest_aborts_on_missing_file:
  "(\<forall>s err. s \<in> set sub_dirs \<and> read_text e (rootdir @ ''/'' @ s @ ''.txt'') = Inl err
       \<longrightarrow> (\<exists>err'. ingest e rootdir = Inl err'))
   \<and> (\<forall>err. read_text e (rootdir @ ''/train.txt'') = Inl err \<longrightarrow> ingest e rootdir = Inl err)
   \<and> (\<forall>idx p err. get_image_ids e rootdir = Inr idx \<and> p \<in> set (pairs_of idx)
         \<and> (image_dimensions e (get_image_path rootdir (fst p) (snd p) ''png'') = Inl err
              \<or> load_json e (get_label_path rootdir (fst p) (snd p)) = Inl err)
       \<longrightarrow> (\<exists>err'. ingest e rootdir = Inl err'))
   \<and> (\<forall>idx ps p qs err. get_image_ids e rootdir = Inr idx \<and> pairs_of idx = ps @ p # qs
         \<and> (\<forall>q\<in>set ps. \<exists>r. get_image_detection e rootdir (fst q) (snd q) ''png'' = Inr r)
         \<and> (image_dimensions e (get_image_path rootdir (fst p) (snd p) ''png'') = Inl err
              \<or> (\<exists>wh. image_dimensions e (get_image_path rootdir (fst p) (snd p) ''png'') = Inr wh)
                  \<and> load_json e (get_label_path rootdir (fst p) (snd p)) = Inl err)
       \<longrightarrow> ingest e rootdir = Inl err)"
proof (intro conjI allI impI)
  fix s err
  assume "s \<in> set sub_dirs \<and> read_text e (rootdir @ ''/'' @ s @ ''.txt'') = Inl err"
  then obtain err' where "get_image_ids e rootdir = Inl err'"
    using get_image_ids_read_error[of s e rootdir err] by blast
  then have "ingest e rootdir = Inl err'"
    by (rule ingest_index_error)
  then show "\<exists>err'. ingest e rootdir = Inl err'" ..
next
  fix err
  assume "read_text e (rootdir @ ''/train.txt'') = Inl err"
  then have "get_image_ids e rootdir = Inl err"
    by (simp add: get_image_ids_unfold)
  then show "ingest e rootdir = Inl err"
    by (rule ingest_index_error)
next
  fix idx p err
  assume a: "get_image_ids e rootdir = Inr idx \<and> p \<in> set (pairs_of idx)
         \<and> (image_dimensions e (get_image_path rootdir (fst p) (snd p) ''png'') = Inl err
              \<or> load_json e (get_label_path rootdir (fst p) (snd p)) = Inl err)"
  then obtain err' where "get_image_detection e rootdir (fst p) (snd p) ''png'' = Inl err'"
    using get_image_detection_file_error[of e rootdir "fst p" "snd p" "''png''" err] by blast
  with a show "\<exists>err'. ingest e rootdir = Inl err'"
    using ingest_pair_error[of e rootdir idx p err'] by blast
next
  fix idx ps p qs err
  assume a: "get_image_ids e rootdir = Inr idx \<and> pairs_of idx = ps @ p # qs
         \<and> (\<forall>q\<in>set ps. \<exists>r. get_image_detection e rootdir (fst q) (snd q) ''png'' = Inr r)
         \<and> (image_dimensions e (get_image_path rootdir (fst p) (snd p) ''png'') = Inl err
              \<or> (\<exists>wh. image_dimensions e (get_image_path rootdir (fst p) (snd p) ''png'') = Inr wh)
                  \<and> load_json e (get_label_path rootdir (fst p) (snd p)) = Inl err)"
  then have "get_image_detection e rootdir (fst p) (snd p) ''png'' = Inl err"
    using get_image_detection_image_error[of e rootdir "fst p" "snd p" "''png''" err]
      get_image_detection_label_error[of e rootdir "fst p" "snd p" "''png''" _ err]
    by blast
  with a show "ingest e rootdir = Inl err"
    using ingest_first_error[of e rootdir idx ps p qs err] by blast
qed

lemma demo_missing_label_index:
  "get_image_ids demo_env_missing_label ''/d''
     = Inr [(''train'', [''a'', ''b'']), (''valid'', [''c'']), (''test'', [''e''])]"
  by (simp add: get_image_ids_unfold demo_env_missing_label_def demo_eval)

lemma demo_missing_label_a:
  "get_image_detection demo_env_missing_label ''/d'' ''train'' ''a'' ''png'' =
     Inr \<lparr>ann_image = \<lparr>img_id = ''a'',
            img_path = ''/d/leftImg8bit/train/tsinghuaDaimlerDataset/a_leftImg8bit.png'',
            img_segmented_path = None, img_width = 40, img_height = 100\<rparr>,
          ann_detections = [\<lparr>det_label = JStr ''pedestrian'', det_left = Fin 0,
            det_right = Fin 39, det_top = Fin 10, det_bottom = Fin 60\<rparr>]\<rparr>"
  by (simp add: demo_env_missing_label_def demo_eval)

theorem ingest_aborts_on_missing_file_witness:
  "ingest demo_env_missing_label ''/d''
     = Inl (FileNotFoundError ''/d/labelData/train/tsinghuaDaimlerDataset/b_labelData.json'')"
proof -
  let ?idx = "[(''train'', [''a'', ''b'']), (''valid'', [''c'']), (''test'', [''e''])]"
  let ?err = "FileNotFoundError ''/d/labelData/train/tsinghuaDaimlerDataset/b_labelData.json''"
  have h1: "get_image_ids demo_env_missing_label ''/d'' = Inr ?idx"
    by (rule demo_missing_label_index)
  have h2: "pairs_of ?idx = [(''train'', ''a'')] @ (''train'', ''b'') # [(''valid'', ''c''), (''test'', ''e'')]"
    by (simp add: pairs_of_def)
  have h3: "\<forall>q\<in>set [(''train'', ''a'')].
      \<exists>r. get_image_detection demo_env_missing_label ''/d'' (fst q) (snd q) ''png'' = Inr r"
    by (simp add: demo_missing_label_a)
  have h4: "(\<exists>wh. image_dimensions demo_env_missing_label
        (get_image_path ''/d'' (fst (''train'', ''b'')) (snd (''train'', ''b'')) ''png'') = Inr wh)
      \<and> load_json demo_env_missing_label
          (get_label_path ''/d'' (fst (''train'', ''b'')) (snd (''train'', ''b''))) = Inl ?err"
    by (simp add: demo_env_missing_label_def fs_env_def demo_images_def demo_labels_def
        get_image_path_def get_label_path_def)
  note t = ingest_aborts_on_missing_file[of demo_env_missing_label "''/d''",
      THEN conjunct2, THEN conjunct2, THEN conjunct2, rule_format,
      of ?idx "[(''train'', ''a'')]" "(''train'', ''b'')" "[(''valid'', ''c''), (''test'', ''e'')]" ?err]
  show ?thesis
    by (rule t) (intro conjI disjI2 h1 h2 h3 h4)
qed

section \<open>Parsing and clamping the boxes\<close>

lemma box_detection_spec:
  "box_detection e w h box =
     bindE (subscript box ''identity'') (\<lambda>identity.
     bindE (box_float e box ''mincol'') (\<lambda>mincol.
     bindE (box_float e box ''maxcol'') (\<lambda>maxcol.
     bindE (box_float e box ''minrow'') (\<lambda>minrow.
     bindE (box_float e box ''maxrow'') (\<lambda>maxrow.
       Inr (spec_clamp w h identity mincol maxcol minrow maxrow))))))"
  by (simp add: box_detection_def spec_clamp_def of_pyint_def Let_def cong: if_cong)

lemma box_detection_Inr:
  "box_detection e w h box = Inr d \<longleftrightarrow>
     (\<exists>identity mincol maxcol minrow maxrow.
        subscript box ''identity'' = Inr identity
        \<and> box_float e box ''mincol'' = Inr mincol \<and> box_float e box ''maxcol'' = Inr maxcol
        \<and> box_float e box ''minrow'' = Inr minrow \<and> box_float e box ''maxrow'' = Inr maxrow
        \<and> d = spec_clamp w h identity mincol maxcol minrow maxrow)"
  unfolding box_detection_spec bindE_eq_Inr by auto

lemma get_detections_Inr:
  "get_detections e fpath w h = Inr ds \<longleftrightarrow>
     (\<exists>f_json children boxes. load_json e fpath = Inr f_json
        \<and> subscript f_json ''children'' = Inr children \<and> iterate children = Inr boxes
        \<and> list_all2 (\<lambda>b d. box_detection e w h b = Inr d) boxes ds)"
  by (simp add: get_detections_def bindE_eq_Inr for_append_Inr)

lemma get_detections_nth:
  assumes "load_json e fpath = Inr f_json" and "subscript f_json ''children'' = Inr children"
    and "iterate children = Inr boxes" and "get_detections e fpath w h = Inr ds"
  shows "length ds = length boxes \<and> (\<forall>k<length boxes. box_detection e w h (boxes ! k) = Inr (ds ! k))"
  using assms by (auto simp: get_detections_Inr list_all2_conv_all_nth)

lemma bit_length_le: "bit_length n \<le> k \<longleftrightarrow> n < 2 ^ k"
proof (induction k arbitrary: n)
  case 0
  show ?case by (subst bit_length.simps) simp
next
  case (Suc k)
  have "bit_length n \<le> Suc k \<longleftrightarrow> n = 0 \<or> bit_length (n div 2) \<le> k"
    by (subst bit_length.simps) simp
  also have "\<dots> \<longleftrightarrow> n = 0 \<or> n div 2 < 2 ^ k"
    by (simp only: Suc.IH)
  also have "\<dots> \<longleftrightarrow> n < 2 ^ Suc k"
    by auto
  finally show ?case .
qed

lemma float_of_int_exact:
  assumes "\<bar>n\<bar> < 2 ^ 53"
  shows "float_of_int n = Inr (of_pyint n)"
proof -
  from assms have "nat \<bar>n\<bar> < 2 ^ 53"
    by (simp add: nat_less_iff)
  then have "bit_length (nat \<bar>n\<bar>) \<le> 53"
    by (simp only: bit_length_le)
  then show ?thesis
    by (simp add: float_of_int_def of_pyint_def Let_def)
qed

lemma spec_clamp_unchanged:
  assumes "py_ge mincol (of_pyint 0)" and "py_lt maxcol (of_pyint w)"
    and "py_ge minrow (of_pyint 0)" and "py_lt maxrow (of_pyint h)"
  shows "spec_clamp w h identity mincol maxcol minrow maxrow =
     \<lparr>det_label = identity, det_left = mincol, det_right = maxcol,
      det_top = minrow, det_bottom = maxrow\<rparr>"
  using assms by (simp add: spec_clamp_def py_ge_def of_pyint_def)

lemma spec_clamp_in_image:
  assumes "box_ok (spec_clamp w h identity mincol maxcol minrow maxrow)"
  shows "py_le (of_pyint 0) (det_left (spec_clamp w h identity mincol maxcol minrow maxrow))
     \<and> py_lt (det_right (spec_clamp w h identity mincol maxcol minrow maxrow)) (of_pyint w)
     \<and> py_le (of_pyint 0) (det_top (spec_clamp w h identity mincol maxcol minrow maxrow))
     \<and> py_lt (det_bottom (spec_clamp w h identity mincol maxcol minrow maxrow)) (of_pyint h)"
proof -
  have a: "py_le (of_pyint 0) (if py_lt x (Fin 0) then Fin 0 else x)
      \<and> py_lt (if py_ge y (Fin (of_int n)) then Fin (of_int n - 1) else y) (of_pyint n)"
    if "py_lt (if py_lt x (Fin 0) then Fin 0 else x)
          (if py_ge y (Fin (of_int n)) then Fin (of_int n - 1) else y)" for x y n
    using that by (cases x; cases y) (auto simp: py_le_def py_ge_def of_pyint_def split: if_splits)
  from assms show ?thesis
    using a[of mincol maxcol w] a[of minrow maxrow h]
    by (simp add: box_ok_def spec_clamp_def)
qed

lemma list_all2_rightD:
  assumes "list_all2 P xs ys" and "y \<in> set ys"
  shows "\<exists>x\<in>set xs. P x y"
  using assms by (induction rule: list_all2_induct) auto

lemma ingest_detection_origin:
  assumes "ingest e rootdir = Inr rs" and "r \<in> set rs" and "d \<in> set (ann_detections r)"
  shows "box_ok d \<and> (\<exists>identity mincol maxcol minrow maxrow.
     d = spec_clamp (img_width (ann_image r)) (img_height (ann_image r))
           identity mincol maxcol minrow maxrow)"
proof -
  from assms(1) obtain idx where
    all2: "list_all2 (\<lambda>p r. get_image_detection e rootdir (fst p) (snd p) ''png'' = Inr r)
      (pairs_of idx) rs"
    unfolding ingest_Inr by blast
  from list_all2_rightD[OF all2 assms(2)]
  obtain p where "get_image_detection e rootdir (fst p) (snd p) ''png'' = Inr r"
    by blast
  then obtain w h ds where
    ds: "get_detections e (get_label_path rootdir (fst p) (snd p)) w h = Inr ds" and
    r: "r = \<lparr>ann_image = \<lparr>img_id = snd p, img_path = get_image_path rootdir (fst p) (snd p) ''png'',
                   img_segmented_path = None, img_width = w, img_height = h\<rparr>,
                 ann_detections = filter box_ok ds\<rparr>"
    unfolding get_image_detection_Inr by blast
  from r assms(3) have ok: "box_ok d" and mem: "d \<in> set ds"
    by simp_all
  from ds obtain boxes where "list_all2 (\<lambda>b d. box_detection e w h b = Inr d) boxes ds"
    unfolding get_detections_Inr by blast
  from list_all2_rightD[OF this mem] obtain b where "box_detection e w h b = Inr d"
    by blast
  then obtain identity mincol maxcol minrow maxrow where
    "d = spec_clamp w h identity mincol maxcol minrow maxrow"
    unfolding box_detection_Inr by blast
  moreover from r have "img_width (ann_image r) = w" "img_height (ann_image r) = h"
    by simp_all
  ultimately show ?thesis using ok by blast
qed

lemma for_append_all_Inr:
  assumes "\<forall>x\<in>set xs. \<exists>r. f x = Inr r"
  shows "for_append f xs acc = Inr (acc @ map (\<lambda>x. projr (f x)) xs)"
  using assms by (induction xs arbitrary: acc) auto

lemma get_detections_total:
  assumes "load_json e fpath = Inr f_json" and "subscript f_json ''children'' = Inr children"
    and "iterate children = Inr boxes"
    and "\<forall>b\<in>set boxes. \<exists>d. box_detection e w h b = Inr d"
  shows "get_detections e fpath w h = Inr (map (\<lambda>b. projr (box_detection e w h b)) boxes)"
  using for_append_all_Inr[OF assms(4), of "[]"]
  by (simp add: get_detections_def assms(1-3))

text \<open>
  C2. For each box \<open>get_detections\<close> converts the four coordinates with \<open>float\<close> and applies
  the four one-sided clamps of the specification and nothing else: the loop body is
  \<open>spec_clamp\<close> of the converted values. When the label file parses and every box converts,
  \<open>get_detections\<close> returns one detection per box, in the order of the boxes and with no
  filtering; when a box does not convert, it fails. The box \<open>(-5, 10, 50, 60)\<close> in a 40 by 100
  image becomes \<open>(0, 10, 39, 60)\<close>, which passes the filter of the degenerate boxes.
\<close>

theorem get_detections_applies_four_clamps:
  "box_detection e w h box =
     bindE (subscript box ''identity'') (\<lambda>identity.
     bindE (box_float e box ''mincol'') (\<lambda>mincol.
     bindE (box_float e box ''maxcol'') (\<lambda>maxcol.
     bindE (box_float e box ''minrow'') (\<lambda>minrow.
     bindE (box_float e box ''maxrow'') (\<lambda>maxrow.
       Inr (spec_clamp w h identity mincol maxcol minrow maxrow))))))
   \<and> (\<forall>f_json children boxes ds. load_json e fpath = Inr f_json
         \<and> subscript f_json ''children'' = Inr children \<and> iterate children = Inr boxes
         \<and> get_detections e fpath w h = Inr ds
       \<longrightarrow> length ds = length boxes
           \<and> (\<forall>k<length boxes. box_detection e w h (boxes ! k) = Inr (ds ! k)))
   \<and> (\<forall>f_json children boxes. load_json e fpath = Inr f_json
         \<and> subscript f_json ''children'' = Inr children \<and> iterate children = Inr boxes
         \<and> (\<forall>b\<in>set boxes. \<exists>d. box_detection e w h b = Inr d)
       \<longrightarrow> get_detections e fpath w h
             = Inr (map (\<lambda>b. projr (box_detection e w h b)) boxes))
   \<and> (\<forall>f_json children boxes b err. load_json e fpath = Inr f_json
         \<and> subscript f_json ''children'' = Inr children \<and> iterate children = Inr boxes
         \<and> b \<in> set boxes \<and> box_detection e w h b = Inl err
       \<longrightarrow> (\<exists>err'. get_detections e fpath w h = Inl err'))
   \<and> box_detection e 40 100 (box_json ''pedestrian'' (JInt (- 5)) (JInt 10) (JInt 50) (JInt 60))
       = Inr \<lparr>det_label = JStr ''pedestrian'', det_left = Fin 0, det_right = Fin 39,
               det_top = Fin 10, det_bottom = Fin 60\<rparr>
   \<and> box_ok \<lparr>det_label = JStr ''pedestrian'', det_left = Fin 0, det_right = Fin 39,
               det_top = Fin 10, det_bottom = Fin 60\<rparr>"
proof (intro conjI allI impI)
  show "box_detection e w h box =
     bindE (subscript box ''identity'') (\<lambda>identity.
     bindE (box_float e box ''mincol'') (\<lambda>mincol.
     bindE (box_float e box ''maxcol'') (\<lambda>maxcol.
     bindE (box_float e box ''minrow'') (\<lambda>minrow.
     bindE (box_float e box ''maxrow'') (\<lambda>maxrow.
       Inr (spec_clamp w h identity mincol maxcol minrow maxrow))))))"
    by (rule box_detection_spec)
next
  fix f_json children boxes ds
  assume a: "load_json e fpath = Inr f_json
         \<and> subscript f_json ''children'' = Inr children \<and> iterate children = Inr boxes
         \<and> get_detections e fpath w h = Inr ds"
  then have *: "length ds = length boxes
      \<and> (\<forall>k<length boxes. box_detection e w h (boxes ! k) = Inr (ds ! k))"
    using get_detections_nth[of e fpath f_json children boxes w h ds] by blast
  then show "length ds = length boxes"
    by simp
  fix k
  assume "k < length boxes"
  with * show "box_detection e w h (boxes ! k) = Inr (ds ! k)"
    by simp
next
  fix f_json children boxes
  assume "load_json e fpath = Inr f_json
         \<and> subscript f_json ''children'' = Inr children \<and> iterate children = Inr boxes
         \<and> (\<forall>b\<in>set boxes. \<exists>d. box_detection e w h b = Inr d)"
  then show "get_detections e fpath w h
             = Inr (map (\<lambda>b. projr (box_detection e w h b)) boxes)"
    using get_detections_total[of e fpath f_json children boxes w h] by blast
next
  fix f_json children boxes b err
  assume a: "load_json e fpath = Inr f_json
         \<and> subscript f_json ''children'' = Inr children \<and> iterate children = Inr boxes
         \<and> b \<in> set boxes \<and> box_detection e w h b = Inl err"
  then have "\<exists>err'. for_append (box_detection e w h) boxes [] = Inl err'"
    using for_append_some_error[of b boxes "box_detection e w h" err "[]"] by blast
  with a show "\<exists>err'. get_detections e fpath w h = Inl err'"
    by (simp add: get_detections_def)
next
  show "box_detection e 40 100 (box_json ''pedestrian'' (JInt (- 5)) (JInt 10) (JInt 50) (JInt 60))
       = Inr \<lparr>det_label = JStr ''pedestrian'', det_left = Fin 0, det_right = Fin 39,
               det_top = Fin 10, det_bottom = Fin 60\<rparr>"
    by (simp add: box_detection_def box_float_def bindE_def box_json_def float_of_int_def
        bit_length.simps py_ge_def of_pyint_def Let_def)
next
  show "box_ok \<lparr>det_label = JStr ''pedestrian'', det_left = Fin 0, det_right = Fin 39,
               det_top = Fin 10, det_bottom = Fin 60\<rparr>"
    by (simp add: box_ok_def)
qed

theorem get_detections_applies_four_clamps_witness:
  "get_detections demo_env ''/d/labelData/train/tsinghuaDaimlerDataset/a_labelData.json'' 40 100
     = Inr [\<lparr>det_label = JStr ''pedestrian'', det_left = Fin 0, det_right = Fin 39,
              det_top = Fin 10, det_bottom = Fin 60\<rparr>]
   \<and> length [\<lparr>det_label = JStr ''pedestrian'', det_left = Fin 0, det_right = Fin 39,
            det_top = Fin 10, det_bottom = Fin 60\<rparr>]
     = length [box_json ''pedestrian'' (JInt (- 5)) (JInt 10) (JInt 50) (JInt 60)]
   \<and> box_detection demo_env 40 100
       (box_json ''pedestrian'' (JInt (- 5)) (JInt 10) (JInt 50) (JInt 60))
       = Inr \<lparr>det_label = JStr ''pedestrian'', det_left = Fin 0, det_right = Fin 39,
               det_top = Fin 10, det_bottom = Fin 60\<rparr>"
proof -
  let ?p = "''/d/labelData/train/tsinghuaDaimlerDataset/a_labelData.json''"
  let ?box = "box_json ''pedestrian'' (JInt (- 5)) (JInt 10) (JInt 50) (JInt 60)"
  let ?d = "\<lparr>det_label = JStr ''pedestrian'', det_left = Fin 0, det_right = Fin 39,
            det_top = Fin 10, det_bottom = Fin 60\<rparr>"
  note t = get_detections_applies_four_clamps[of demo_env 40 100 _ ?p]
  have h1: "load_json demo_env ?p = Inr (JObj [(''children'', JArr [?box])])"
    by (simp add: demo_env_def fs_env_def demo_labels_def)
  have h2: "subscript (JObj [(''children'', JArr [?box])]) ''children'' = Inr (JArr [?box])"
    by simp
  have h3: "iterate (JArr [?box]) = Inr [?box]"
    by simp
  have b: "box_detection demo_env 40 100 ?box = Inr ?d"
    by (simp add: box_detection_def box_float_def bindE_def box_json_def float_of_int_def
        bit_length.simps py_ge_def of_pyint_def Let_def)
  then have h4: "\<forall>b\<in>set [?box]. \<exists>d. box_detection demo_env 40 100 b = Inr d"
    by simp
  have "get_detections demo_env ?p 40 100
      = Inr (map (\<lambda>b. projr (box_detection demo_env 40 100 b)) [?box])"
    by (rule t[THEN conjunct2, THEN conjunct2, THEN conjunct1, rule_format,
          of "JObj [(''children'', JArr [?box])]" "JArr [?box]" "[?box]"])
      (intro conjI h1 h2 h3 h4)
  then have g: "get_detections demo_env ?p 40 100 = Inr [?d]"
    by (simp add: b)
  have "length [?d] = length [?box]
      \<and> (\<forall>k<length [?box]. box_detection demo_env 40 100 ([?box] ! k) = Inr ([?d] ! k))"
    by (rule t[THEN conjunct2, THEN conjunct1, rule_format,
          of "JObj [(''children'', JArr [?box])]" "JArr [?box]" "[?box]" "[?d]"])
      (intro conjI h1 h2 h3 g)
  then have "length [?d] = length [?box]" by (rule conjunct1)
  with g b show ?thesis by (intro conjI)
qed

text \<open>
  C7. A box whose converted coordinates need no clamping (\<open>mincol >= 0\<close>, \<open>maxcol < width\<close>,
  \<open>minrow >= 0\<close>, \<open>maxrow < height\<close>) gives the detection whose left, right, top and bottom are
  the converted values themselves and whose label is the \<open>identity\<close> value, unchanged. The
  conversion is the identity on a JSON float and exact on a JSON int below \<open>2 ^ 53\<close>. When
  the box is not degenerate, this detection is in the record of the image.
\<close>

theorem unclamped_box_round_trip:
  assumes "load_json e fpath = Inr f_json" and "subscript f_json ''children'' = Inr children"
    and "iterate children = Inr boxes" and "get_detections e fpath w h = Inr ds"
    and "k < length boxes"
    and "subscript (boxes ! k) ''identity'' = Inr identity"
    and "box_float e (boxes ! k) ''mincol'' = Inr mincol"
    and "box_float e (boxes ! k) ''maxcol'' = Inr maxcol"
    and "box_float e (boxes ! k) ''minrow'' = Inr minrow"
    and "box_float e (boxes ! k) ''maxrow'' = Inr maxrow"
    and "py_ge mincol (of_pyint 0)" and "py_lt maxcol (of_pyint w)"
    and "py_ge minrow (of_pyint 0)" and "py_lt maxrow (of_pyint h)"
  shows "ds ! k = \<lparr>det_label = identity, det_left = mincol, det_right = maxcol,
                    det_top = minrow, det_bottom = maxrow\<rparr>
     \<and> (\<forall>x. py_float (float_of_str e) (JFloat x) = Inr x)
     \<and> (\<forall>n. \<bar>n\<bar> < 2 ^ 53 \<longrightarrow> py_float (float_of_str e) (JInt n) = Inr (of_pyint n))
     \<and> (\<forall>rootdir s i ext r. get_image_detection e rootdir s i ext = Inr r
           \<and> image_dimensions e (get_image_path rootdir s i ext) = Inr (w, h)
           \<and> get_label_path rootdir s i = fpath
           \<and> py_lt mincol maxcol \<and> py_lt minrow maxrow
         \<longrightarrow> \<lparr>det_label = identity, det_left = mincol, det_right = maxcol,
               det_top = minrow, det_bottom = maxrow\<rparr> \<in> set (ann_detections r))"
proof (intro conjI allI impI)
  let ?d = "\<lparr>det_label = identity, det_left = mincol, det_right = maxcol,
             det_top = minrow, det_bottom = maxrow\<rparr>"
  from get_detections_nth[OF assms(1-4)] assms(5)
  have len: "length ds = length boxes" and "box_detection e w h (boxes ! k) = Inr (ds ! k)"
    by simp_all
  then have "ds ! k = spec_clamp w h identity mincol maxcol minrow maxrow"
    by (simp add: box_detection_spec assms(6-10))
  then show nth: "ds ! k = ?d"
    by (simp only: spec_clamp_unchanged[OF assms(11-14)])
  {
    fix rootdir s i ext r
    assume a: "get_image_detection e rootdir s i ext = Inr r
           \<and> image_dimensions e (get_image_path rootdir s i ext) = Inr (w, h)
           \<and> get_label_path rootdir s i = fpath
           \<and> py_lt mincol maxcol \<and> py_lt minrow maxrow"
    then have "ann_detections r = filter box_ok ds"
      using assms(4) by (auto simp: get_image_detection_Inr)
    moreover from a have "box_ok ?d"
      by (simp add: box_ok_def)
    moreover from nth len assms(5) have "?d \<in> set ds"
      by (metis nth_mem)
    ultimately show "?d \<in> set (ann_detections r)"
      by simp
  }
next
  fix x
  show "py_float (float_of_str e) (JFloat x) = Inr x"
    by simp
next
  fix n :: int
  assume "\<bar>n\<bar> < 2 ^ 53"
  then show "py_float (float_of_str e) (JInt n) = Inr (of_pyint n)"
    by (simp add: float_of_int_exact)
qed

theorem unclamped_box_round_trip_witness:
  "[\<lparr>det_label = JStr ''pedestrian'', det_left = Fin 1, det_right = Fin 3,
      det_top = Fin 2, det_bottom = Fin 4\<rparr>] ! 0
     = \<lparr>det_label = JStr ''pedestrian'', det_left = Fin 1, det_right = Fin 3,
        det_top = Fin 2, det_bottom = Fin 4\<rparr>
   \<and> get_detections demo_env ''/d/labelData/test/tsinghuaDaimlerDataset/e_labelData.json'' 64 48
       = Inr [\<lparr>det_label = JStr ''pedestrian'', det_left = Fin 1, det_right = Fin 3,
                det_top = Fin 2, det_bottom = Fin 4\<rparr>]"
proof -
  let ?p = "''/d/labelData/test/tsinghuaDaimlerDataset/e_labelData.json''"
  let ?box = "box_json ''pedestrian'' (JInt 1) (JInt 2) (JInt 3) (JInt 4)"
  let ?ds = "[\<lparr>det_label = JStr ''pedestrian'', det_left = Fin 1, det_right = Fin 3,
            det_top = Fin 2, det_bottom = Fin 4\<rparr>]"
  have h1: "load_json demo_env ?p = Inr (JObj [(''children'', JArr [?box])])"
    by (simp add: demo_env_def fs_env_def demo_labels_def)
  have h2: "subscript (JObj [(''children'', JArr [?box])]) ''children'' = Inr (JArr [?box])"
    by simp
  have h3: "iterate (JArr [?box]) = Inr [?box]"
    by simp
  have h4: "get_detections demo_env ?p 64 48 = Inr ?ds"
    by (simp add: demo_env_def demo_eval)
  have h5: "0 < length [?box]"
    by simp
  have h6: "subscript ([?box] ! 0) ''identity'' = Inr (JStr ''pedestrian'')"
    by (simp add: box_json_def)
  have h7: "box_float demo_env ([?box] ! 0) ''mincol'' = Inr (Fin 1)"
    by (simp add: box_json_def box_float_def float_of_int_def bit_length.simps)
  have h8: "box_float demo_env ([?box] ! 0) ''maxcol'' = Inr (Fin 3)"
    by (simp add: box_json_def box_float_def float_of_int_def bit_length.simps)
  have h9: "box_float demo_env ([?box] ! 0) ''minrow'' = Inr (Fin 2)"
    by (simp add: box_json_def box_float_def float_of_int_def bit_length.simps)
  have h10: "box_float demo_env ([?box] ! 0) ''maxrow'' = Inr (Fin 4)"
    by (simp add: box_json_def box_float_def float_of_int_def bit_length.simps)
  have h11: "py_ge (Fin 1) (of_pyint 0)" and h12: "py_lt (Fin 3) (of_pyint 64)"
    and h13: "py_ge (Fin 2) (of_pyint 0)" and h14: "py_lt (Fin 4) (of_pyint 48)"
    by (simp_all add: py_ge_def of_pyint_def)
  from unclamped_box_round_trip[OF h1 h2 h3 h4 h5 h6 h7 h8 h9 h10 h11 h12 h13 h14]
  have "?ds ! 0 = \<lparr>det_label = JStr ''pedestrian'', det_left = Fin 1, det_right = Fin 3,
        det_top = Fin 2, det_bottom = Fin 4\<rparr>"
    by (rule conjunct1)
  with h4 show ?thesis by (intro conjI)
qed

section \<open>Detections of the output\<close>

text \<open>
  C1. Every detection in a record of \<open>ingest\<close> has \<open>left < right\<close> and \<open>top < bottom\<close>: the
  detections of a record are those of the label file that satisfy both, the others are left
  out with no error. A box with \<open>mincol = 39\<close> and \<open>maxcol = 40\<close> in an image of width 40 has
  its right clamped to 39, equal to its left, and does not pass.
\<close>

theorem ingest_detections_not_degenerate:
  "(\<forall>rs r d. ingest e rootdir = Inr rs \<and> r \<in> set rs \<and> d \<in> set (ann_detections r)
       \<longrightarrow> py_lt (det_left d) (det_right d) \<and> py_lt (det_top d) (det_bottom d))
   \<and> (\<forall>s i ext r. get_image_detection e rootdir s i ext = Inr r
       \<longrightarrow> (\<exists>ds. get_detections e (get_label_path rootdir s i)
                    (img_width (ann_image r)) (img_height (ann_image r)) = Inr ds
              \<and> ann_detections r
                  = filter (\<lambda>d. py_lt (det_left d) (det_right d) \<and> py_lt (det_top d) (det_bottom d))
                      ds))
   \<and> (\<forall>identity minrow maxrow h d.
         box_detection e 40 h (JObj [(''identity'', identity), (''mincol'', JInt 39),
           (''minrow'', minrow), (''maxcol'', JInt 40), (''maxrow'', maxrow)]) = Inr d
       \<longrightarrow> det_left d = Fin 39 \<and> det_right d = Fin 39 \<and> \<not> box_ok d)"
proof (intro conjI allI impI)
  fix rs r d
  assume a: "ingest e rootdir = Inr rs \<and> r \<in> set rs \<and> d \<in> set (ann_detections r)"
  then have "box_ok d"
    using ingest_detection_origin[of e rootdir rs r d] by blast
  then show "py_lt (det_left d) (det_right d)" and "py_lt (det_top d) (det_bottom d)"
    by (simp_all add: box_ok_def)
next
  fix s i ext r
  assume "get_image_detection e rootdir s i ext = Inr r"
  then obtain w h ds where
    "get_detections e (get_label_path rootdir s i) w h = Inr ds" and
    "r = \<lparr>ann_image = \<lparr>img_id = i, img_path = get_image_path rootdir s i ext,
                   img_segmented_path = None, img_width = w, img_height = h\<rparr>,
                 ann_detections = filter box_ok ds\<rparr>"
    unfolding get_image_detection_Inr by blast
  then have "get_detections e (get_label_path rootdir s i)
                    (img_width (ann_image r)) (img_height (ann_image r)) = Inr ds
      \<and> ann_detections r
          = filter (\<lambda>d. py_lt (det_left d) (det_right d) \<and> py_lt (det_top d) (det_bottom d)) ds"
    by (simp add: box_ok_def[abs_def])
  then show "\<exists>ds. get_detections e (get_label_path rootdir s i)
                    (img_width (ann_image r)) (img_height (ann_image r)) = Inr ds
              \<and> ann_detections r
                  = filter (\<lambda>d. py_lt (det_left d) (det_right d) \<and> py_lt (det_top d) (det_bottom d))
                      ds" ..
next
  fix identity minrow maxrow h d
  assume "box_detection e 40 h (JObj [(''identity'', identity), (''mincol'', JInt 39),
           (''minrow'', minrow), (''maxcol'', JInt 40), (''maxrow'', maxrow)]) = Inr d"
  then obtain y1 y2 where "d = spec_clamp 40 h identity (Fin 39) (Fin 40) y1 y2"
    unfolding box_detection_Inr
    by (auto simp: box_float_def float_of_int_def bit_length.simps)
  then show "det_left d = Fin 39" and "det_right d = Fin 39" and "\<not> box_ok d"
    by (simp_all add: spec_clamp_def py_ge_def box_ok_def)
qed

theorem ingest_detections_not_degenerate_witness:
  "py_lt (Fin 0) (Fin 39) \<and> py_lt (Fin 10) (Fin 60)
   \<and> box_detection demo_env 40 100 (box_json ''cyclist'' (JInt 39) (JInt 10) (JInt 40) (JInt 60))
       = Inr \<lparr>det_label = JStr ''cyclist'', det_left = Fin 39, det_right = Fin 39,
               det_top = Fin 10, det_bottom = Fin 60\<rparr>
   \<and> \<not> box_ok \<lparr>det_label = JStr ''cyclist'', det_left = Fin 39, det_right = Fin 39,
               det_top = Fin 10, det_bottom = Fin 60\<rparr>"
proof -
  let ?ra = "\<lparr>ann_image = \<lparr>img_id = ''a'',
            img_path = ''/d/leftImg8bit/train/tsinghuaDaimlerDataset/a_leftImg8bit.png'',
            img_segmented_path = None, img_width = 40, img_height = 100\<rparr>,
          ann_detections = [\<lparr>det_label = JStr ''pedestrian'', det_left = Fin 0,
            det_right = Fin 39, det_top = Fin 10, det_bottom = Fin 60\<rparr>]\<rparr>"
  let ?da = "\<lparr>det_label = JStr ''pedestrian'', det_left = Fin 0,
            det_right = Fin 39, det_top = Fin 10, det_bottom = Fin 60\<rparr>"
  let ?db = "\<lparr>det_label = JStr ''cyclist'', det_left = Fin 39, det_right = Fin 39,
               det_top = Fin 10, det_bottom = Fin 60\<rparr>"
  note t = ingest_detections_not_degenerate[of demo_env "''/d''"]
  have h1: "ingest demo_env ''/d'' = Inr (projr (ingest demo_env ''/d''))"
    by (simp add: demo_ingest)
  have h2: "?ra \<in> set (projr (ingest demo_env ''/d''))"
    by (simp add: demo_ingest)
  have h3: "?da \<in> set (ann_detections ?ra)"
    by simp
  have "py_lt (det_left ?da) (det_right ?da) \<and> py_lt (det_top ?da) (det_bottom ?da)"
    by (rule t[THEN conjunct1, rule_format, of "projr (ingest demo_env ''/d'')" ?ra ?da])
      (intro conjI h1 h2 h3)
  then have a: "py_lt (Fin 0) (Fin 39) \<and> py_lt (Fin 10) (Fin 60)"
    by simp
  have h4: "box_detection demo_env 40 100 (JObj [(''identity'', JStr ''cyclist''),
      (''mincol'', JInt 39), (''minrow'', JInt 10), (''maxcol'', JInt 40), (''maxrow'', JInt 60)])
      = Inr ?db"
    by (simp add: box_detection_def box_float_def bindE_def float_of_int_def
        bit_length.simps py_ge_def of_pyint_def Let_def)
  have "det_left ?db = Fin 39 \<and> det_right ?db = Fin 39 \<and> \<not> box_ok ?db"
    by (rule t[THEN conjunct2, THEN conjunct2, rule_format]) (rule h4)
  then have b: "\<not> box_ok ?db"
    by simp
  from h4 have c: "box_detection demo_env 40 100
      (box_json ''cyclist'' (JInt 39) (JInt 10) (JInt 40) (JInt 60)) = Inr ?db"
    by (simp add: box_json_def)
  from a b c show ?thesis by (intro conjI) simp_all
qed

text \<open>
  C9, as amended. Every detection in a record of \<open>ingest\<close> lies in the image:
  \<open>0 <= left < right < width\<close> and \<open>0 <= top < bottom < height\<close>; a right or bottom that is a
  whole number is at most \<open>width - 1\<close> or \<open>height - 1\<close>.
\<close>

theorem ingest_detections_within_image:
  "\<forall>rs r d. ingest e rootdir = Inr rs \<and> r \<in> set rs \<and> d \<in> set (ann_detections r)
     \<longrightarrow> py_le (of_pyint 0) (det_left d) \<and> py_lt (det_left d) (det_right d)
         \<and> py_lt (det_right d) (of_pyint (img_width (ann_image r)))
         \<and> py_le (of_pyint 0) (det_top d) \<and> py_lt (det_top d) (det_bottom d)
         \<and> py_lt (det_bottom d) (of_pyint (img_height (ann_image r)))
         \<and> (\<forall>n. det_right d = of_pyint n \<longrightarrow> n \<le> img_width (ann_image r) - 1)
         \<and> (\<forall>n. det_bottom d = of_pyint n \<longrightarrow> n \<le> img_height (ann_image r) - 1)"
proof (intro allI impI)
  fix rs r d
  assume a: "ingest e rootdir = Inr rs \<and> r \<in> set rs \<and> d \<in> set (ann_detections r)"
  then obtain identity mincol maxcol minrow maxrow where
    ok: "box_ok d" and
    d: "d = spec_clamp (img_width (ann_image r)) (img_height (ann_image r))
           identity mincol maxcol minrow maxrow"
    using ingest_detection_origin[of e rootdir rs r d] by blast
  from ok have lt: "py_lt (det_left d) (det_right d) \<and> py_lt (det_top d) (det_bottom d)"
    by (simp add: box_ok_def)
  from ok have inside: "py_le (of_pyint 0) (det_left d)
     \<and> py_lt (det_right d) (of_pyint (img_width (ann_image r)))
     \<and> py_le (of_pyint 0) (det_top d)
     \<and> py_lt (det_bottom d) (of_pyint (img_height (ann_image r)))"
    unfolding d by (rule spec_clamp_in_image)
  have whole: "n \<le> m - 1" if "py_lt x (of_pyint m)" and "x = of_pyint n" for x n m
    using that by (simp add: of_pyint_def)
  from inside have "\<forall>n. det_right d = of_pyint n \<longrightarrow> n \<le> img_width (ann_image r) - 1"
    and "\<forall>n. det_bottom d = of_pyint n \<longrightarrow> n \<le> img_height (ann_image r) - 1"
    using whole by blast+
  with lt inside
  show "py_le (of_pyint 0) (det_left d) \<and> py_lt (det_left d) (det_right d)
         \<and> py_lt (det_right d) (of_pyint (img_width (ann_image r)))
         \<and> py_le (of_pyint 0) (det_top d) \<and> py_lt (det_top d) (det_bottom d)
         \<and> py_lt (det_bottom d) (of_pyint (img_height (ann_image r)))
         \<and> (\<forall>n. det_right d = of_pyint n \<longrightarrow> n \<le> img_width (ann_image r) - 1)
         \<and> (\<forall>n. det_bottom d = of_pyint n \<longrightarrow> n \<le> img_height (ann_image r) - 1)"
    by blast
qed

theorem ingest_detections_within_image_witness:
  "py_le (of_pyint 0) (Fin 10) \<and> py_lt (Fin 10) (Fin (79 / 2))
   \<and> py_lt (Fin (79 / 2)) (of_pyint 40)
   \<and> py_le (of_pyint 0) (Fin 10) \<and> py_lt (Fin 10) (Fin 60) \<and> py_lt (Fin 60) (of_pyint 100)"
proof -
  let ?rc = "\<lparr>ann_image = \<lparr>img_id = ''c'',
            img_path = ''/d/leftImg8bit/valid/tsinghuaDaimlerDataset/c_leftImg8bit.png'',
            img_segmented_path = None, img_width = 40, img_height = 100\<rparr>,
          ann_detections = [\<lparr>det_label = JStr ''cyclist'', det_left = Fin 10,
            det_right = Fin (79 / 2), det_top = Fin 10, det_bottom = Fin 60\<rparr>]\<rparr>"
  let ?dc = "\<lparr>det_label = JStr ''cyclist'', det_left = Fin 10,
            det_right = Fin (79 / 2), det_top = Fin 10, det_bottom = Fin 60\<rparr>"
  have h1: "ingest demo_env ''/d'' = Inr (projr (ingest demo_env ''/d''))"
    by (simp add: demo_ingest)
  have h2: "?rc \<in> set (projr (ingest demo_env ''/d''))"
    by (simp add: demo_ingest)
  have h3: "?dc \<in> set (ann_detections ?rc)"
    by simp
  have "py_le (of_pyint 0) (det_left ?dc) \<and> py_lt (det_left ?dc) (det_right ?dc)
         \<and> py_lt (det_right ?dc) (of_pyint (img_width (ann_image ?rc)))
         \<and> py_le (of_pyint 0) (det_top ?dc) \<and> py_lt (det_top ?dc) (det_bottom ?dc)
         \<and> py_lt (det_bottom ?dc) (of_pyint (img_height (ann_image ?rc)))
         \<and> (\<forall>n. det_right ?dc = of_pyint n \<longrightarrow> n \<le> img_width (ann_image ?rc) - 1)
         \<and> (\<forall>n. det_bottom ?dc = of_pyint n \<longrightarrow> n \<le> img_height (ann_image ?rc) - 1)"
    by (rule ingest_detections_within_image[of demo_env "''/d''", rule_format,
          of "projr (ingest demo_env ''/d'')" ?rc ?dc])
      (intro conjI h1 h2 h3)
  then show ?thesis
    by simp
qed

text \<open>
  C9, as the claim states it, fails for a coordinate that is not a whole number: in an image
  of width 40 a box with \<open>maxcol = 39.5\<close> is not clamped, since \<open>39.5 >= 40\<close> is false, it
  passes the filter, and its right is above \<open>width - 1 = 39\<close>.
\<close>

theorem pixel_range_counterexample:
  "ingest demo_env ''/d'' =
     Inr [\<lparr>ann_image = \<lparr>img_id = ''a'',
            img_path = ''/d/leftImg8bit/train/tsinghuaDaimlerDataset/a_leftImg8bit.png'',
            img_segmented_path = None, img_width = 40, img_height = 100\<rparr>,
          ann_detections = [\<lparr>det_label = JStr ''pedestrian'', det_left = Fin 0,
            det_right = Fin 39, det_top = Fin 10, det_bottom = Fin 60\<rparr>]\<rparr>,
         \<lparr>ann_image = \<lparr>img_id = ''b'',
            img_path = ''/d/leftImg8bit/train/tsinghuaDaimlerDataset/b_leftImg8bit.png'',
            img_segmented_path = None, img_width = 40, img_height = 100\<rparr>,
          ann_detections = []\<rparr>,
         \<lparr>ann_image = \<lparr>img_id = ''c'',
            img_path = ''/d/leftImg8bit/valid/tsinghuaDaimlerDataset/c_leftImg8bit.png'',
            img_segmented_path = None, img_width = 40, img_height = 100\<rparr>,
          ann_detections = [\<lparr>det_label = JStr ''cyclist'', det_left = Fin 10,
            det_right = Fin (79 / 2), det_top = Fin 10, det_bottom = Fin 60\<rparr>]\<rparr>,
         \<lparr>ann_image = \<lparr>img_id = ''e'',
            img_path = ''/d/leftImg8bit/test/tsinghuaDaimlerDataset/e_leftImg8bit.png'',
            img_segmented_path = None, img_width = 64, img_height = 48\<rparr>,
          ann_detections = [\<lparr>det_label = JStr ''pedestrian'', det_left = Fin 1,
            det_right = Fin 3, det_top = Fin 2, det_bottom = Fin 4\<rparr>]\<rparr>]
   \<and> \<not> py_le (Fin (79 / 2)) (of_pyint (40 - 1))"
  by (simp add: demo_ingest py_le_def py_ge_def of_pyint_def)

end
